theory Spec2Isabelle
  imports Complex_Main
begin

section \<open>Feature extraction of kndetect (src/kndetect/features.py)\<close>

text \<open>
  The development embeds the functions of \<^verbatim>\<open>features.py\<close> that compute the
  per-band features of a light curve. Python floats are modelled by the reals, so every
  statement about values is a statement of exact arithmetic; a division by zero, which
  numpy evaluates to an infinity or a NaN without raising, has HOL's value \<open>0\<close>.
  Exceptions are values of the type \<open>error\<close>, and a function that can raise returns
  \<open>error + 'a\<close> with \<open>Inl\<close> for the exception.
\<close>

subsection \<open>Python and numpy primitives\<close>

datatype error = IndexError | ValueError

text \<open>Sequencing: the first exception raised ends the computation.\<close>

fun bind_err :: "error + 'a \<Rightarrow> ('a \<Rightarrow> error + 'b) \<Rightarrow> error + 'b" where
  "bind_err (Inl e) f = Inl e"
| "bind_err (Inr x) f = f x"

text \<open>Python's \<^verbatim>\<open>str\<close> on a non-negative integer: its decimal digits.\<close>

definition digit_char :: "nat \<Rightarrow> char" where
  "digit_char d = ''0123456789'' ! d"

function str_nat :: "nat \<Rightarrow> string" where
  "str_nat n = (if n < 10 then [digit_char n] else str_nat (n div 10) @ [digit_char (n mod 10)])"
  by pat_completeness auto
termination
  by (relation "measure (\<lambda>n. n)") auto

declare str_nat.simps [simp del]

text \<open>
  A numpy array of floats, as far as the code needs it: of dimension zero (what
  \<^verbatim>\<open>np.zeros_like\<close> makes of an integer) or of dimension one.
\<close>

datatype ndarray = Scalar real | Vec "real list"

text \<open>
  An elementwise binary operation on two one-dimensional arrays, with numpy's
  broadcasting: equal lengths, or one of the two of length one; any other pair of shapes
  raises.
\<close>

definition broadcast2 :: "(real \<Rightarrow> real \<Rightarrow> real) \<Rightarrow> real list \<Rightarrow> real list \<Rightarrow> error + real list" where
  "broadcast2 f xs ys =
     (if length xs = length ys then Inr (map2 f xs ys)
      else if length xs = 1 then Inr (map (\<lambda>y. f (hd xs) y) ys)
      else if length ys = 1 then Inr (map (\<lambda>x. f x (hd ys)) xs)
      else Inl ValueError)"

fun np_add :: "ndarray \<Rightarrow> ndarray \<Rightarrow> error + ndarray" where
  "np_add (Scalar x) (Scalar y) = Inr (Scalar (x + y))"
| "np_add (Scalar x) (Vec ys) = Inr (Vec (map (\<lambda>y. x + y) ys))"
| "np_add (Vec xs) (Scalar y) = Inr (Vec (map (\<lambda>x. x + y) xs))"
| "np_add (Vec xs) (Vec ys) = bind_err (broadcast2 (\<lambda>x y. x + y) xs ys) (\<lambda>zs. Inr (Vec zs))"

text \<open>The product of a float and an array.\<close>

fun np_scale :: "real \<Rightarrow> ndarray \<Rightarrow> ndarray" where
  "np_scale b (Scalar x) = Scalar (b * x)"
| "np_scale b (Vec xs) = Vec (map (\<lambda>x. b * x) xs)"

text \<open>
  Reading a one-dimensional array at a list of integer positions (\<^verbatim>\<open>np.take\<close> in its
  default mode, and indexing an array with a list): a negative position counts from the
  end, and a position outside \<open>[-n, n)\<close> raises \<^verbatim>\<open>IndexError\<close>.
\<close>

definition get_item :: "real list \<Rightarrow> int \<Rightarrow> error + real" where
  "get_item xs i =
     (if 0 \<le> i \<and> i < int (length xs) then Inr (xs ! nat i)
      else if - int (length xs) \<le> i \<and> i < 0 then Inr (xs ! nat (int (length xs) + i))
      else Inl IndexError)"

fun take_items :: "real list \<Rightarrow> int list \<Rightarrow> error + real list" where
  "take_items xs [] = Inr []"
| "take_items xs (i # rest) =
     bind_err (get_item xs i) (\<lambda>v. bind_err (take_items xs rest) (\<lambda>vs. Inr (v # vs)))"

text \<open>\<^verbatim>\<open>np.take\<close> without an axis reads the flattened array.\<close>

fun flatten :: "ndarray \<Rightarrow> real list" where
  "flatten (Scalar x) = [x]"
| "flatten (Vec xs) = xs"

definition np_take :: "ndarray \<Rightarrow> int list \<Rightarrow> error + real list" where
  "np_take a idx = take_items (flatten a) idx"

text \<open>
  \<^verbatim>\<open>np.argmax\<close>: the position of the first occurrence of the maximum; an empty
  sequence raises \<^verbatim>\<open>ValueError\<close>.
\<close>

definition np_argmax :: "real list \<Rightarrow> error + nat" where
  "np_argmax xs =
     (if xs = [] then Inl ValueError
      else Inr (length (takeWhile (\<lambda>x. x \<noteq> Max (set xs)) xs)))"

text \<open>
  Positional access with a non-negative position, \<^verbatim>\<open>.iloc[i]\<close> on a column and
  \<^verbatim>\<open>pcs[0]\<close> on the template matrix: a position past the end raises.
\<close>

definition iloc :: "'a list \<Rightarrow> nat \<Rightarrow> error + 'a" where
  "iloc xs i = (if i < length xs then Inr (xs ! i) else Inl IndexError)"

text \<open>
  \<^verbatim>\<open>np.around\<close> followed by \<^verbatim>\<open>astype(int)\<close>: the nearest integer, a tie going to
  the even neighbour.
\<close>

definition np_around :: "real \<Rightarrow> int" where
  "np_around x =
     (let f = \<lfloor>x\<rfloor>; d = x - of_int f
      in if d < 1 / 2 then f else if 1 / 2 < d then f + 1 else if even f then f else f + 1)"

subsection \<open>Feature names (lines 10--30)\<close>

definition names_root :: "nat \<Rightarrow> string list" where
  "names_root npcs =
     map (\<lambda>i. ''coeff'' @ str_nat (i + 1) @ ''_'') [0..<npcs] @ [''residuo_'', ''maxflux_'']"

definition get_feature_names :: "nat \<Rightarrow> string list" where
  "get_feature_names npcs =
     concat (map (\<lambda>j. map (\<lambda>i. i @ j) (names_root npcs)) [''g'', ''r''])"

text \<open>
  The layout that section 4.7 of the specification describes in words, "grouped by field
  across bands": for each field in turn, its name in every band. It is written from the
  specification, to be compared with \<open>get_feature_names\<close>.
\<close>

definition names_grouped_by_field :: "nat \<Rightarrow> string list" where
  "names_grouped_by_field npcs =
     concat (map (\<lambda>i. map (\<lambda>j. i @ j) [''g'', ''r'']) (names_root npcs))"

subsection \<open>Prediction, loss and residual (lines 33--148)\<close>

text \<open>
  The template matrix \<^verbatim>\<open>pcs_arr\<close> is the list of its rows. The loop of
  \<^verbatim>\<open>calc_prediction\<close> runs over \<^verbatim>\<open>zip(pcs_arr, coeff)\<close> and starts from the
  zero-dimensional array \<^verbatim>\<open>np.zeros_like(pcs_arr.shape[0])\<close>.
\<close>

fun calc_prediction_loop :: "(real list \<times> real) list \<Rightarrow> ndarray \<Rightarrow> error + ndarray" where
  "calc_prediction_loop [] predicted_lc = Inr predicted_lc"
| "calc_prediction_loop ((a, b) # rest) predicted_lc =
     bind_err (np_add predicted_lc (np_scale b (Vec a))) (calc_prediction_loop rest)"

definition calc_prediction :: "real list \<Rightarrow> real list list \<Rightarrow> error + ndarray" where
  "calc_prediction coeff pcs_arr = calc_prediction_loop (zip pcs_arr coeff) (Scalar 0)"

text \<open>
  The part that \<^verbatim>\<open>calc_loss\<close> and \<^verbatim>\<open>calc_residual\<close> share (lines 92--96 and
  139--145): the prediction read at the mapped positions, and the squared differences to
  the flux over the squared errors.
\<close>

definition squared_error_terms ::
  "real list \<Rightarrow> real list list \<Rightarrow> real list \<Rightarrow> real list \<Rightarrow> int list \<Rightarrow> error + real list" where
  "squared_error_terms coeff pcs_arr light_curve_flux light_curve_err map_dates_to_arr_index =
     bind_err (calc_prediction coeff pcs_arr) (\<lambda>y_pred.
     bind_err (np_take y_pred map_dates_to_arr_index) (\<lambda>real_flux.
     bind_err (broadcast2 (\<lambda>x y. x - y) real_flux light_curve_flux) (\<lambda>diff.
     broadcast2 (\<lambda>x y. x / y) (map (\<lambda>x. x\<^sup>2) diff) (map (\<lambda>x. x\<^sup>2) light_curve_err))))"

text \<open>
  \<^verbatim>\<open>low_var_indices\<close> is a list of positions or \<^verbatim>\<open>None\<close>. The exceptions of the
  source are raised in the order of its statements: the prediction, the lookup, the two
  elementwise operations, the regularised coefficients, the leading coefficient.
\<close>

definition calc_loss ::
  "real list \<Rightarrow> real list list \<Rightarrow> real list \<Rightarrow> real list \<Rightarrow> int list \<Rightarrow> real \<Rightarrow> int list option
     \<Rightarrow> error + real" where
  "calc_loss coeff pcs_arr light_curve_flux light_curve_err map_dates_to_arr_index
       regularization_weight low_var_indices =
     bind_err (squared_error_terms coeff pcs_arr light_curve_flux light_curve_err
                 map_dates_to_arr_index) (\<lambda>terms.
     let reconstruction_loss = sum_list terms in
     bind_err (case low_var_indices of
                 None \<Rightarrow> Inr 0
               | Some lvi \<Rightarrow> bind_err (take_items coeff lvi) (\<lambda>cs. Inr (sum_list (map (\<lambda>x. x\<^sup>2) cs))))
       (\<lambda>regularization_term.
     bind_err (get_item coeff 0) (\<lambda>c0.
     let regularization_term' =
           (if c0 < 0 then regularization_term + c0\<^sup>2 else regularization_term)
     in Inr (reconstruction_loss + regularization_term' * regularization_weight))))"

definition calc_residual ::
  "real list \<Rightarrow> real list list \<Rightarrow> real list \<Rightarrow> real list \<Rightarrow> int list \<Rightarrow> error + real" where
  "calc_residual coeff pcs_arr light_curve_flux light_curve_err map_dates_to_arr_index =
     bind_err (squared_error_terms coeff pcs_arr light_curve_flux light_curve_err
                 map_dates_to_arr_index) (\<lambda>terms.
     let reconstruction_loss = sum_list terms / real (length terms)
     in Inr (sqrt reconstruction_loss))"

subsection \<open>Features of one band (lines 151--266)\<close>

text \<open>
  A band's data frame is the list of its rows, in the order of the frame.
\<close>

record observation =
  MJD :: real
  FLUXCAL :: real
  FLUXCALERR :: real
  FLT :: string

text \<open>
  \<^verbatim>\<open>scipy.optimize.minimize\<close> is not code of the repository: it is a parameter of the
  model. As in the call of line 231 it receives the objective, the initial guess, the
  tuple \<^verbatim>\<open>args\<close> that it hands to the objective after the coefficients, and the
  bounds; it returns \<^verbatim>\<open>result.x\<close>, or the exception that the objective raised.
\<close>

type_synonym loss_args =
  "real list list \<times> real list \<times> real list \<times> int list \<times> real \<times> int list option"

type_synonym objective =
  "real list \<Rightarrow> real list list \<Rightarrow> real list \<Rightarrow> real list \<Rightarrow> int list \<Rightarrow> real \<Rightarrow> int list option
     \<Rightarrow> error + real"

type_synonym minimizer =
  "objective \<Rightarrow> real list \<Rightarrow> loss_args \<Rightarrow> (real \<times> real) list \<Rightarrow> error + real list"

text \<open>The call \<^verbatim>\<open>fun(x, *args)\<close> that a solver makes.\<close>

fun apply_objective :: "objective \<Rightarrow> real list \<Rightarrow> loss_args \<Rightarrow> error + real" where
  "apply_objective f x (p, y, s, m, w, l) = f x p y s m w l"

text \<open>
  What the development assumes of a solver where it needs the fit to return: when the
  objective raises on no vector of the length of the initial guess, the solver returns
  a vector of that length.
\<close>

definition solver_returns :: "minimizer \<Rightarrow> bool" where
  "solver_returns minimize \<longleftrightarrow>
     (\<forall>f x0 args bnds.
        (\<forall>x. length x = length x0 \<longrightarrow> (\<exists>v. apply_objective f x args = Inr v)) \<longrightarrow>
        (\<exists>x. minimize f x0 args bnds = Inr x \<and> length x = length x0))"

text \<open>
  A solver to evaluate the model with: it evaluates the objective at the initial guess,
  as every method of \<^verbatim>\<open>minimize\<close> does first, and stops there.
\<close>

definition initial_guess_solver :: minimizer where
  "initial_guess_solver f x0 args bnds = bind_err (apply_objective f x0 args) (\<lambda>v. Inr x0)"

text \<open>Lines 192--198: the rows strictly inside the window around the peak date.\<close>

definition prediction_window :: "observation list \<Rightarrow> real \<Rightarrow> nat \<Rightarrow> real \<Rightarrow> observation list" where
  "prediction_window band_df mid_point_date num_prediction_points time_bin =
     (let prediction_duration = time_bin * of_int (int num_prediction_points - 1);
          start_date = mid_point_date - prediction_duration / 2;
          end_date = mid_point_date + prediction_duration / 2
      in filter (\<lambda>ob. start_date < MJD ob \<and> MJD ob < end_date) band_df)"

text \<open>Lines 207--211: the position on the template grid of each date.\<close>

definition dates_to_arr_index :: "real list \<Rightarrow> real \<Rightarrow> real \<Rightarrow> nat \<Rightarrow> int list" where
  "dates_to_arr_index dates mid_point_date time_bin num_prediction_points =
     map (\<lambda>t. np_around ((t - mid_point_date) / time_bin
                          + of_int (int num_prediction_points - 1) / 2)) dates"

text \<open>
  Lines 202--254, the branch that fits: \<open>band_df\<close> is the frame after the window
  selection, \<open>max_flux\<close> and \<open>mid_point_date\<close> were read before it.
\<close>

definition fit_band ::
  "minimizer \<Rightarrow> observation list \<Rightarrow> real list list \<Rightarrow> nat \<Rightarrow> real \<Rightarrow> int list option \<Rightarrow> real \<Rightarrow> real
     \<Rightarrow> error + real list" where
  "fit_band minimize band_df pcs num_prediction_points time_bin low_var_indices max_flux
       mid_point_date =
     (let num_pcs = length pcs in
      bind_err (np_argmax (map FLUXCAL band_df)) (\<lambda>max_loc.
      let map_dates_to_arr_index =
            dates_to_arr_index (map MJD band_df) mid_point_date time_bin num_prediction_points;
          initial_guess = replicate num_pcs (1 / 2)
      in
      bind_err (iloc (map FLUXCALERR band_df) max_loc) (\<lambda>err_bar_of_max_flux.
      let regularization_weight = (max_flux / err_bar_of_max_flux)\<^sup>2;
          normalized_flux = map (\<lambda>v. v / max_flux) (map FLUXCAL band_df);
          normalized_err_bars = map (\<lambda>v. v / max_flux) (map FLUXCALERR band_df);
          bounds = replicate num_pcs (- 2, 2)
      in
      bind_err (minimize calc_loss initial_guess
                  (pcs, normalized_flux, normalized_err_bars, map_dates_to_arr_index,
                   regularization_weight, low_var_indices) bounds) (\<lambda>result_x.
      bind_err (calc_residual result_x pcs normalized_flux normalized_err_bars
                  map_dates_to_arr_index) (\<lambda>residual.
      Inr (result_x @ [residual, max_flux]))))))"

definition predict_band_features ::
  "minimizer \<Rightarrow> observation list \<Rightarrow> real list list \<Rightarrow> real \<Rightarrow> real \<Rightarrow> int list option
     \<Rightarrow> error + real list" where
  "predict_band_features minimize band_df pcs time_bin flux_lim low_var_indices =
     (let num_pcs = length pcs in
      bind_err (iloc pcs 0) (\<lambda>pcs0.
      let num_prediction_points = length pcs0 in
      if length band_df = 0
      then Inr (replicate (length (get_feature_names num_pcs) div 2) 0)
      else
        bind_err (np_argmax (map FLUXCAL band_df)) (\<lambda>max_loc.
        bind_err (iloc (map FLUXCAL band_df) max_loc) (\<lambda>max_flux.
        bind_err (iloc (map MJD band_df) max_loc) (\<lambda>mid_point_date.
        let band_df' = prediction_window band_df mid_point_date num_prediction_points time_bin
        in if flux_lim < max_flux \<and> 2 \<le> length band_df'
           then fit_band minimize band_df' pcs num_prediction_points time_bin low_var_indices
                  max_flux mid_point_date
           else Inr (replicate num_pcs 0 @ [0, 0]))))))"

subsection \<open>Features of all bands (lines 269--317)\<close>

fun extract_loop ::
  "minimizer \<Rightarrow> real list list \<Rightarrow> string list \<Rightarrow> observation list \<Rightarrow> real \<Rightarrow> real \<Rightarrow> real list
     \<Rightarrow> error + real list" where
  "extract_loop minimize pcs [] lc flux_lim time_bin all_features = Inr all_features"
| "extract_loop minimize pcs (band # rest) lc flux_lim time_bin all_features =
     bind_err (predict_band_features minimize (filter (\<lambda>ob. FLT ob = band) lc) pcs time_bin
                 flux_lim (Some [1, 2])) (\<lambda>features.
     extract_loop minimize pcs rest lc flux_lim time_bin (all_features @ features))"

definition extract_features_all_bands ::
  "minimizer \<Rightarrow> real list list \<Rightarrow> string list \<Rightarrow> observation list \<Rightarrow> real \<Rightarrow> real
     \<Rightarrow> error + real list" where
  "extract_features_all_bands minimize pcs filters lc flux_lim time_bin =
     extract_loop minimize pcs filters lc flux_lim time_bin []"

subsection \<open>Notions of the statements\<close>

text \<open>
  A template matrix of shape \<open>[P, N]\<close>: at least one component, every component of
  length \<open>N\<close>.
\<close>

definition template_matrix :: "real list list \<Rightarrow> nat \<Rightarrow> bool" where
  "template_matrix pcs n \<longleftrightarrow> pcs \<noteq> [] \<and> list_all (\<lambda>row. length row = n) pcs"

text \<open>Every flux and every flux error of a frame multiplied by \<open>k\<close>.\<close>

definition rescale :: "real \<Rightarrow> observation list \<Rightarrow> observation list" where
  "rescale k band_df =
     map (\<lambda>ob. ob\<lparr>FLUXCAL := k * FLUXCAL ob, FLUXCALERR := k * FLUXCALERR ob\<rparr>) band_df"

text \<open>The residual among the features of a band: the last but one.\<close>

definition residual_of :: "real list \<Rightarrow> real" where
  "residual_of features = features ! (length features - 2)"

text \<open>
  The peak of a band: the row that \<^verbatim>\<open>np.argmax\<close> finds in the flux column of the
  frame before the window selection, the first one of maximal flux.
\<close>

definition peak_observation :: "observation list \<Rightarrow> observation" where
  "peak_observation band_df =
     band_df ! length (takeWhile (\<lambda>x. x \<noteq> Max (set (map FLUXCAL band_df))) (map FLUXCAL band_df))"

text \<open>
  The low-variance positions address a coefficient vector of length \<open>p\<close>: each lies
  in \<open>[-p, p)\<close>, the positions at which indexing a numpy array does not raise.
\<close>

definition valid_positions :: "nat \<Rightarrow> int list option \<Rightarrow> bool" where
  "valid_positions p low_var_indices =
     (case low_var_indices of
        None \<Rightarrow> True
      | Some lvi \<Rightarrow> list_all (\<lambda>i. - int p \<le> i \<and> i < int p) lvi)"

text \<open>
  The frame that \<open>predict_band_features\<close> keeps for the fit, the window around the date
  of the peak, and the condition of line 200 under which it fits: the maximal flux of the
  frame before the window selection exceeds the limit, and the window keeps two rows or
  more.
\<close>

definition band_window :: "observation list \<Rightarrow> real list list \<Rightarrow> real \<Rightarrow> observation list" where
  "band_window band_df pcs time_bin =
     prediction_window band_df (MJD (peak_observation band_df)) (length (hd pcs)) time_bin"

definition fit_gate :: "observation list \<Rightarrow> real list list \<Rightarrow> real \<Rightarrow> real \<Rightarrow> bool" where
  "fit_gate band_df pcs time_bin flux_lim \<longleftrightarrow>
     flux_lim < Max (set (map FLUXCAL band_df)) \<and> 2 \<le> length (band_window band_df pcs time_bin)"

text \<open>
  Inputs to evaluate the model on: three templates of length nine, the same with two
  templates only, and a band of two bright observations a quarter of a day apart.
\<close>

definition example_pcs :: "real list list" where
  "example_pcs =
     [[0, 0, 0, 0, 1, 0, 0, 0, 0], [0, 0, 0, 0, 0, 0, 0, 0, 0], [0, 0, 0, 0, 0, 0, 0, 0, 0]]"

definition example_pcs2 :: "real list list" where
  "example_pcs2 = [[0, 0, 0, 0, 1, 0, 0, 0, 0], [0, 0, 0, 0, 0, 0, 0, 0, 0]]"

definition example_band :: "observation list" where
  "example_band =
     [\<lparr>MJD = 0, FLUXCAL = 300, FLUXCALERR = 10, FLT = ''g''\<rparr>,
      \<lparr>MJD = 1 / 4, FLUXCAL = 150, FLUXCALERR = 10, FLT = ''g''\<rparr>]"

section \<open>Properties\<close>

subsection \<open>Feature names\<close>

lemma str_nat_digit: "n < 10 \<Longrightarrow> str_nat n = [digit_char n]"
  by (simp add: str_nat.simps)

lemma length_names_root: "length (names_root npcs) = npcs + 2"
  by (simp add: names_root_def)

lemma length_get_feature_names: "length (get_feature_names npcs) = 2 * (npcs + 2)"
  by (simp add: get_feature_names_def length_names_root)

lemma get_feature_names_append:
  "get_feature_names npcs =
     map (\<lambda>i. i @ ''g'') (names_root npcs) @ map (\<lambda>i. i @ ''r'') (names_root npcs)"
  by (simp add: get_feature_names_def)

lemma get_feature_names_3:
  "get_feature_names 3 =
     [''coeff1_g'', ''coeff2_g'', ''coeff3_g'', ''residuo_g'', ''maxflux_g'',
      ''coeff1_r'', ''coeff2_r'', ''coeff3_r'', ''residuo_r'', ''maxflux_r'']"
  by (simp add: get_feature_names_def names_root_def str_nat_digit digit_char_def upt_rec)

lemma names_layout:
  assumes "b < 2" and "f < npcs + 2"
  shows "get_feature_names npcs ! (b * (npcs + 2) + f) = names_root npcs ! f @ [''g'', ''r''] ! b"
proof (cases "b = 0")
  case True
  then show ?thesis
    using assms by (simp add: get_feature_names_append nth_append length_names_root)
next
  case False
  then have "b = 1" using assms by simp
  then show ?thesis
    using assms by (simp add: get_feature_names_append nth_append length_names_root)
qed

subsection \<open>The empty band\<close>

lemma replicate_plus_two: "replicate (n + 2) x = replicate n x @ [x, x]"
proof -
  have "replicate (n + 2) x = replicate n x @ replicate 2 x"
    by (rule replicate_add)
  also have "replicate 2 x = [x, x]"
    by (simp add: numeral_2_eq_2)
  finally show ?thesis .
qed

lemma predict_empty_band:
  assumes "pcs \<noteq> []"
  shows "predict_band_features minimize [] pcs time_bin flux_lim low_var_indices =
           Inr (replicate (length pcs) 0 @ [0, 0])"
proof -
  have "iloc pcs 0 = Inr (pcs ! 0)"
    using assms by (simp add: iloc_def)
  moreover have "replicate (length (get_feature_names (length pcs)) div 2) (0::real) =
      replicate (length pcs) 0 @ [0, 0]"
    by (simp only: length_get_feature_names nonzero_mult_div_cancel_left replicate_plus_two)
  ultimately show ?thesis
    by (simp add: predict_band_features_def Let_def)
qed

subsection \<open>The prediction in closed form\<close>

lemma broadcast2_same_length:
  "length xs = length ys \<Longrightarrow> broadcast2 f xs ys = Inr (map2 f xs ys)"
  by (simp add: broadcast2_def)

lemma map2_same_source:
  "map2 f (map g xs) (map h xs) = map (\<lambda>x. f (g x) (h x)) xs"
  by (induction xs) simp_all

lemma calc_prediction_loop_Vec:
  assumes "\<forall>p \<in> set ps. length (fst p) = length v"
  shows "calc_prediction_loop ps (Vec v) =
           Inr (Vec (map (\<lambda>k. v ! k + (\<Sum>p\<leftarrow>ps. snd p * fst p ! k)) [0..<length v]))"
  using assms
proof (induction ps arbitrary: v)
  case Nil
  then show ?case by (simp add: map_nth)
next
  case (Cons p ps)
  obtain a b where p: "p = (a, b)" by (cases p)
  define v' where "v' = map2 (\<lambda>x y. x + y) v (map (\<lambda>x. b * x) a)"
  have la: "length a = length v" using Cons.prems p by simp
  then have lv': "length v' = length v" by (simp add: v'_def)
  have step: "np_add (Vec v) (np_scale b (Vec a)) = Inr (Vec v')"
    using la by (simp add: broadcast2_same_length v'_def)
  have "\<forall>q \<in> set ps. length (fst q) = length v'"
    using Cons.prems lv' by simp
  then have IH: "calc_prediction_loop ps (Vec v') =
      Inr (Vec (map (\<lambda>k. v' ! k + (\<Sum>q\<leftarrow>ps. snd q * fst q ! k)) [0..<length v']))"
    by (rule Cons.IH)
  have "map (\<lambda>k. v' ! k + (\<Sum>q\<leftarrow>ps. snd q * fst q ! k)) [0..<length v] =
        map (\<lambda>k. v ! k + (\<Sum>q\<leftarrow>p # ps. snd q * fst q ! k)) [0..<length v]"
    using la by (simp add: v'_def p)
  then show ?case
    using step IH lv' by (simp add: p)
qed

lemma calc_prediction_empty:
  "pcs = [] \<or> coeff = [] \<Longrightarrow> calc_prediction coeff pcs = Inr (Scalar 0)"
  by (auto simp: calc_prediction_def)

lemma calc_prediction_closed:
  assumes "list_all (\<lambda>row. length row = n) pcs" and "pcs \<noteq> []" and "coeff \<noteq> []"
  shows "calc_prediction coeff pcs =
           Inr (Vec (map (\<lambda>k. \<Sum>p\<leftarrow>zip pcs coeff. snd p * fst p ! k) [0..<n]))"
proof -
  obtain r rs where pcs: "pcs = r # rs" using assms(2) by (cases pcs) auto
  obtain c cs where coeff: "coeff = c # cs" using assms(3) by (cases coeff) auto
  have lr: "length r = n" using assms(1) pcs by simp
  have rows: "\<forall>p \<in> set (zip rs cs). length (fst p) = length (map (\<lambda>y. 0 + c * y) r)"
    using assms(1) pcs lr by (auto simp: list_all_iff dest: set_zip_leftD)
  show ?thesis
    unfolding calc_prediction_def pcs coeff
    using calc_prediction_loop_Vec [OF rows] lr by simp
qed

lemma sum_zip_linear:
  fixes a b :: real
  assumes "length c1 = length c2"
  shows "(\<Sum>p\<leftarrow>zip pcs (map2 (\<lambda>x y. a * x + b * y) c1 c2). snd p * fst p ! k) =
         a * (\<Sum>p\<leftarrow>zip pcs c1. snd p * fst p ! k) + b * (\<Sum>p\<leftarrow>zip pcs c2. snd p * fst p ! k)"
  using assms
proof (induction pcs arbitrary: c1 c2)
  case Nil
  then show ?case by simp
next
  case (Cons r rs)
  show ?case
  proof (cases c1)
    case Nil
    then show ?thesis using Cons.prems by simp
  next
    case (Cons x xs)
    then obtain y ys where c2: "c2 = y # ys" using Cons.prems by (cases c2) auto
    have "length xs = length ys" using Cons.prems Cons c2 by simp
    from Cons.IH [OF this] show ?thesis
      by (simp add: Cons c2 algebra_simps)
  qed
qed

lemma calc_prediction_lin:
  assumes "list_all (\<lambda>row. length row = n) pcs" and "length c1 = length c2"
  shows "\<exists>p1 p2. calc_prediction c1 pcs = Inr p1 \<and> calc_prediction c2 pcs = Inr p2 \<and>
           calc_prediction (map2 (\<lambda>x y. a * x + b * y) c1 c2) pcs =
             np_add (np_scale a p1) (np_scale b p2)"
proof (cases "pcs = [] \<or> c1 = []")
  case True
  then have "pcs = [] \<or> c2 = []" using assms(2) by auto
  moreover have "pcs = [] \<or> map2 (\<lambda>x y. a * x + b * y) c1 c2 = []" using True by auto
  ultimately show ?thesis
    using True by (simp add: calc_prediction_empty)
next
  case False
  then have ne: "pcs \<noteq> []" "c1 \<noteq> []" "c2 \<noteq> []" "map2 (\<lambda>x y. a * x + b * y) c1 c2 \<noteq> []"
    using assms(2) by auto
  show ?thesis
    using assms
    by (simp add: calc_prediction_closed [OF assms(1)] ne broadcast2_same_length
        map2_same_source sum_zip_linear o_def)
qed

subsection \<open>Lookups and the loss in closed form\<close>

lemma get_item_nonneg:
  "0 \<le> i \<Longrightarrow> i < int (length xs) \<Longrightarrow> get_item xs i = Inr (xs ! nat i)"
  by (simp add: get_item_def)

lemma get_item_valid:
  "- int (length xs) \<le> i \<Longrightarrow> i < int (length xs) \<Longrightarrow> \<exists>v. get_item xs i = Inr v"
  by (simp add: get_item_def)

lemma take_items_in_range:
  "\<forall>i \<in> set idx. 0 \<le> i \<and> i < int (length xs) \<Longrightarrow>
     take_items xs idx = Inr (map (\<lambda>i. xs ! nat i) idx)"
  by (induction idx) (simp_all add: get_item_nonneg)

lemma take_items_valid:
  "\<forall>i \<in> set idx. - int (length xs) \<le> i \<and> i < int (length xs) \<Longrightarrow>
     \<exists>vs. take_items xs idx = Inr vs \<and> length vs = length idx"
proof (induction idx)
  case Nil
  then show ?case by simp
next
  case (Cons i idx)
  then obtain v where "get_item xs i = Inr v"
    using get_item_valid [of xs i] by auto
  moreover obtain vs where "take_items xs idx = Inr vs" "length vs = length idx"
    using Cons by auto
  ultimately show ?case by simp
qed

lemma map2_as_nth:
  "length xs = length ys \<Longrightarrow> map2 f xs ys = map (\<lambda>j. f (xs ! j) (ys ! j)) [0..<length xs]"
  by (rule nth_equalityI) simp_all

lemma sum_list_upt: "sum_list (map f [0..<m]) = (\<Sum>j<m. f j)"
  by (simp add: interv_sum_list_conv_sum_set_nat atLeast0LessThan)

lemma sum_zip_as_nth:
  "length coeff = length pcs \<Longrightarrow>
     (\<Sum>p\<leftarrow>zip pcs coeff. snd p * fst p ! k) = (\<Sum>i<length pcs. coeff ! i * pcs ! i ! k)"
proof -
  assume l: "length coeff = length pcs"
  have "zip pcs coeff = map (\<lambda>i. (pcs ! i, coeff ! i)) [0..<length pcs]"
    using l by (intro nth_equalityI) simp_all
  then have "(\<Sum>p\<leftarrow>zip pcs coeff. snd p * fst p ! k) =
      sum_list (map (\<lambda>i. coeff ! i * pcs ! i ! k) [0..<length pcs])"
    by (simp add: o_def)
  then show ?thesis by (simp add: sum_list_upt)
qed

lemma squared_error_terms_closed:
  assumes rows: "list_all (\<lambda>row. length row = n) pcs" and "pcs \<noteq> []" and "coeff \<noteq> []"
    and lf: "length flux = length idx" and le: "length err = length idx"
    and rng: "\<forall>i \<in> set idx. 0 \<le> i \<and> i < int n"
  shows "squared_error_terms coeff pcs flux err idx =
           Inr (map (\<lambda>j. ((\<Sum>p\<leftarrow>zip pcs coeff. snd p * fst p ! nat (idx ! j)) - flux ! j)\<^sup>2
                          / (err ! j)\<^sup>2) [0..<length idx])"
proof -
  define pred where "pred k = (\<Sum>p\<leftarrow>zip pcs coeff. snd p * fst p ! k)" for k
  have cp: "calc_prediction coeff pcs = Inr (Vec (map pred [0..<n]))"
    using calc_prediction_closed [OF rows assms(2,3)] by (simp add: pred_def)
  have "take_items (map pred [0..<n]) idx = Inr (map (\<lambda>i. map pred [0..<n] ! nat i) idx)"
    using rng by (intro take_items_in_range) simp
  also have "map (\<lambda>i. map pred [0..<n] ! nat i) idx = map (\<lambda>i. pred (nat i)) idx"
    using rng by (intro map_cong refl) auto
  finally have tk: "np_take (Vec (map pred [0..<n])) idx = Inr (map (\<lambda>i. pred (nat i)) idx)"
    by (simp add: np_take_def)
  have "map2 (\<lambda>x y. x / y) (map (\<lambda>x. x\<^sup>2) (map2 (\<lambda>x y. x - y) (map (\<lambda>i. pred (nat i)) idx) flux))
          (map (\<lambda>x. x\<^sup>2) err) =
        map (\<lambda>j. (pred (nat (idx ! j)) - flux ! j)\<^sup>2 / (err ! j)\<^sup>2) [0..<length idx]"
    using lf le by (intro nth_equalityI) simp_all
  then show ?thesis
    using lf le by (simp add: squared_error_terms_def cp tk broadcast2_same_length pred_def)
qed

lemma calc_loss_closed:
  assumes rows: "list_all (\<lambda>row. length row = n) pcs" and P3: "3 \<le> length pcs"
    and lc: "length coeff = length pcs"
    and lf: "length flux = length idx" and le: "length err = length idx"
    and rng: "\<forall>i \<in> set idx. 0 \<le> i \<and> i < int n"
  shows "calc_loss coeff pcs flux err idx w (Some [1, 2]) =
           Inr ((\<Sum>j<length idx.
                   (((\<Sum>i<length pcs. coeff ! i * pcs ! i ! nat (idx ! j)) - flux ! j) / err ! j)\<^sup>2)
                + w * ((coeff ! 1)\<^sup>2 + (coeff ! 2)\<^sup>2
                       + (if coeff ! 0 < 0 then (coeff ! 0)\<^sup>2 else 0)))"
proof -
  have ne: "pcs \<noteq> []" "coeff \<noteq> []" using P3 lc by auto
  have terms: "squared_error_terms coeff pcs flux err idx =
      Inr (map (\<lambda>j. (((\<Sum>i<length pcs. coeff ! i * pcs ! i ! nat (idx ! j)) - flux ! j) / err ! j)\<^sup>2)
             [0..<length idx])"
    using squared_error_terms_closed [OF rows ne lf le rng]
    by (simp add: sum_zip_as_nth [OF lc] power_divide)
  have reg: "take_items coeff [1, 2] = Inr [coeff ! 1, coeff ! 2]"
    using P3 lc take_items_in_range [of "[1, 2]" coeff] by simp
  have c0: "get_item coeff 0 = Inr (coeff ! 0)"
    using ne by (simp add: get_item_nonneg)
  show ?thesis
    by (simp add: calc_loss_def terms reg c0 sum_list_upt algebra_simps del: take_items.simps)
qed

subsection \<open>The window, the grid positions and the peak\<close>

lemma np_around_bounds:
  assumes "0 < x" and "x < of_int m"
  shows "0 \<le> np_around x \<and> np_around x \<le> m"
proof -
  have "0 \<le> \<lfloor>x\<rfloor>" using assms(1) by simp
  moreover have "\<lfloor>x\<rfloor> < m" using assms(2) by (simp add: floor_less_iff)
  ultimately show ?thesis
    by (auto simp: np_around_def Let_def)
qed

lemma window_member:
  "ob \<in> set (prediction_window band_df mid n time_bin) \<longleftrightarrow>
     ob \<in> set band_df \<and> mid - time_bin * of_int (int n - 1) / 2 < MJD ob
       \<and> MJD ob < mid + time_bin * of_int (int n - 1) / 2"
  by (simp add: prediction_window_def Let_def)

lemma window_index_bounds:
  assumes tb: "0 < time_bin"
    and ob: "ob \<in> set (prediction_window band_df mid n time_bin)"
  shows "0 \<le> np_around ((MJD ob - mid) / time_bin + of_int (int n - 1) / 2) \<and>
         np_around ((MJD ob - mid) / time_bin + of_int (int n - 1) / 2) \<le> int n - 1"
proof -
  define h :: real where "h = of_int (int n - 1) / 2"
  define d where "d = MJD ob - mid"
  have "mid - time_bin * h < MJD ob" and "MJD ob < mid + time_bin * h"
    using ob by (simp_all add: window_member h_def)
  then have "(- h) * time_bin < d" and "d < h * time_bin"
    by (simp_all add: d_def mult.commute)
  then have "- h < d / time_bin" and "d / time_bin < h"
    using tb by (simp_all only: pos_less_divide_eq pos_divide_less_eq)
  then have "0 < d / time_bin + h" and "d / time_bin + h < 2 * h"
    by linarith+
  moreover have "2 * h = of_int (int n - 1)"
    by (simp add: h_def)
  ultimately have "0 < d / time_bin + h" and "d / time_bin + h < of_int (int n - 1)"
    by simp_all
  from np_around_bounds [OF this] show ?thesis
    by (simp add: h_def d_def)
qed

lemma dates_index_bounds:
  assumes "0 < time_bin"
  shows "\<forall>i \<in> set (dates_to_arr_index (map MJD (prediction_window band_df mid n time_bin))
                     mid time_bin n). 0 \<le> i \<and> i \<le> int n - 1"
  using window_index_bounds [OF assms]
  by (auto simp: dates_to_arr_index_def)

lemma length_dates_to_arr_index [simp]:
  "length (dates_to_arr_index dates mid time_bin n) = length dates"
  by (simp add: dates_to_arr_index_def)

lemma takeWhile_stops:
  "\<exists>x \<in> set xs. \<not> P x \<Longrightarrow> length (takeWhile P xs) < length xs"
  by (induction xs) auto

lemma first_max_position:
  assumes "xs \<noteq> []"
  shows "length (takeWhile (\<lambda>x. x \<noteq> Max (set xs)) xs) < length xs"
    and "xs ! length (takeWhile (\<lambda>x. x \<noteq> Max (set xs)) xs) = Max (set xs)"
proof -
  have "Max (set xs) \<in> set xs" using assms by (intro Max_in) simp_all
  then have "\<exists>x \<in> set xs. \<not> x \<noteq> Max (set xs)" by auto
  then show lt: "length (takeWhile (\<lambda>x. x \<noteq> Max (set xs)) xs) < length xs"
    by (rule takeWhile_stops)
  from nth_length_takeWhile [OF lt]
  show "xs ! length (takeWhile (\<lambda>x. x \<noteq> Max (set xs)) xs) = Max (set xs)" by simp
qed

lemma np_argmax_nonempty:
  "xs \<noteq> [] \<Longrightarrow> np_argmax xs = Inr (length (takeWhile (\<lambda>x. x \<noteq> Max (set xs)) xs))"
  by (simp add: np_argmax_def)

lemma peak_observation_props:
  assumes "band_df \<noteq> []"
  shows "peak_observation band_df \<in> set band_df"
    and "FLUXCAL (peak_observation band_df) = Max (set (map FLUXCAL band_df))"
proof -
  let ?p = "length (takeWhile (\<lambda>x. x \<noteq> Max (set (map FLUXCAL band_df))) (map FLUXCAL band_df))"
  have ne: "map FLUXCAL band_df \<noteq> []" using assms by simp
  have lt: "?p < length band_df" using first_max_position(1) [OF ne] by simp
  then show "peak_observation band_df \<in> set band_df"
    by (simp add: peak_observation_def)
  show "FLUXCAL (peak_observation band_df) = Max (set (map FLUXCAL band_df))"
    using first_max_position(2) [OF ne] lt by (simp add: peak_observation_def)
qed

lemma nth_first_filter:
  assumes "\<exists>x \<in> set xs. \<not> P x" and "R (xs ! length (takeWhile P xs))"
  shows "filter R xs ! length (takeWhile P (filter R xs)) = xs ! length (takeWhile P xs)"
  using assms
proof (induction xs)
  case Nil
  then show ?case by simp
next
  case (Cons a xs)
  show ?case
  proof (cases "P a")
    case True
    then have "\<exists>x \<in> set xs. \<not> P x" and "R (xs ! length (takeWhile P xs))"
      using Cons.prems by auto
    then have "filter R xs ! length (takeWhile P (filter R xs)) = xs ! length (takeWhile P xs)"
      by (rule Cons.IH)
    then show ?thesis using True by simp
  next
    case False
    then show ?thesis using Cons.prems by simp
  qed
qed

lemma peak_observation_filter:
  assumes ne: "band_df \<noteq> []" and R: "R (peak_observation band_df)"
  shows "filter R band_df \<noteq> []" and "peak_observation (filter R band_df) = peak_observation band_df"
proof -
  let ?M = "Max (set (map FLUXCAL band_df))"
  have pk: "peak_observation band_df \<in> set (filter R band_df)"
    using peak_observation_props(1) [OF ne] R by simp
  then show fne: "filter R band_df \<noteq> []" by (auto simp del: set_filter filter_set)
  have "Max (set (map FLUXCAL (filter R band_df))) = ?M"
  proof (rule Max_eqI)
    show "finite (set (map FLUXCAL (filter R band_df)))" by simp
    show "?M \<in> set (map FLUXCAL (filter R band_df))"
      using pk peak_observation_props(2) [OF ne] by force
    fix y assume "y \<in> set (map FLUXCAL (filter R band_df))"
    then have "y \<in> set (map FLUXCAL band_df)" by auto
    then show "y \<le> ?M" by (intro Max_ge) simp_all
  qed
  moreover have "\<exists>x \<in> set band_df. \<not> (FLUXCAL x \<noteq> ?M)"
    using peak_observation_props [OF ne] by auto
  moreover have "R (band_df ! length (takeWhile (\<lambda>ob. FLUXCAL ob \<noteq> ?M) band_df))"
    using R by (simp add: peak_observation_def takeWhile_map o_def)
  ultimately show "peak_observation (filter R band_df) = peak_observation band_df"
    using nth_first_filter [of band_df "\<lambda>ob. FLUXCAL ob \<noteq> ?M" R]
    by (simp add: peak_observation_def takeWhile_map o_def)
qed

subsection \<open>The branches of \<open>predict_band_features\<close>\<close>

lemma predict_nonempty:
  assumes "pcs \<noteq> []" and ne: "band_df \<noteq> []"
  shows "predict_band_features minimize band_df pcs time_bin flux_lim low_var_indices =
     (let pk = peak_observation band_df;
          w = prediction_window band_df (MJD pk) (length (hd pcs)) time_bin
      in if flux_lim < FLUXCAL pk \<and> 2 \<le> length w
         then fit_band minimize w pcs (length (hd pcs)) time_bin low_var_indices
                (FLUXCAL pk) (MJD pk)
         else Inr (replicate (length pcs) 0 @ [0, 0]))"
proof -
  let ?p = "length (takeWhile (\<lambda>x. x \<noteq> Max (set (map FLUXCAL band_df))) (map FLUXCAL band_df))"
  have p0: "iloc pcs 0 = Inr (hd pcs)"
    using assms(1) by (simp add: iloc_def hd_conv_nth)
  have fne: "map FLUXCAL band_df \<noteq> []" using ne by simp
  have am: "np_argmax (map FLUXCAL band_df) = Inr ?p"
    using fne by (rule np_argmax_nonempty)
  have lt: "?p < length band_df"
    using first_max_position(1) [OF fne] by simp
  have f: "iloc (map FLUXCAL band_df) ?p = Inr (FLUXCAL (peak_observation band_df))"
    using lt by (simp add: iloc_def peak_observation_def)
  have m: "iloc (map MJD band_df) ?p = Inr (MJD (peak_observation band_df))"
    using lt by (simp add: iloc_def peak_observation_def)
  show ?thesis
    unfolding predict_band_features_def Let_def
    by (simp only: p0 am f m bind_err.simps) (use ne in simp)
qed

lemma window_has_peak:
  assumes ne: "band_df \<noteq> []"
    and w: "prediction_window band_df (MJD (peak_observation band_df)) n time_bin \<noteq> []"
  shows "peak_observation
           (prediction_window band_df (MJD (peak_observation band_df)) n time_bin) =
         peak_observation band_df"
proof -
  define mid where "mid = MJD (peak_observation band_df)"
  define d where "d = time_bin * of_int (int n - 1) / 2"
  obtain ob where "ob \<in> set (prediction_window band_df mid n time_bin)"
    using w by (cases "prediction_window band_df mid n time_bin") (auto simp: mid_def)
  then have "mid - d < MJD ob" and "MJD ob < mid + d"
    by (simp_all add: window_member d_def)
  then have "mid - d < mid \<and> mid < mid + d" by linarith
  then have R: "(\<lambda>ob. mid - d < MJD ob \<and> MJD ob < mid + d) (peak_observation band_df)"
    by (simp add: mid_def)
  have "prediction_window band_df mid n time_bin =
      filter (\<lambda>ob. mid - d < MJD ob \<and> MJD ob < mid + d) band_df"
    by (simp add: prediction_window_def Let_def d_def)
  then show ?thesis
    using peak_observation_filter(2)
      [of band_df "\<lambda>ob. mid - d < MJD ob \<and> MJD ob < mid + d", OF ne R]
    by (simp add: mid_def)
qed

lemma window_positive_extent:
  assumes "prediction_window band_df mid n time_bin \<noteq> []"
  shows "0 < time_bin * of_int (int n - 1)"
proof -
  obtain ob where "ob \<in> set (prediction_window band_df mid n time_bin)"
    using assms by (cases "prediction_window band_df mid n time_bin") auto
  then have "mid - time_bin * of_int (int n - 1) / 2 < MJD ob"
    and "MJD ob < mid + time_bin * of_int (int n - 1) / 2"
    by (simp_all add: window_member)
  then show ?thesis by linarith
qed

lemma fit_band_call:
  assumes ne: "band_df \<noteq> []"
    and w: "w = prediction_window band_df (MJD (peak_observation band_df)) n time_bin"
    and wne: "w \<noteq> []"
  shows "fit_band minimize w pcs n time_bin low_var_indices
           (FLUXCAL (peak_observation band_df)) (MJD (peak_observation band_df)) =
     bind_err (minimize calc_loss (replicate (length pcs) (1 / 2))
                 (pcs,
                  map (\<lambda>v. v / FLUXCAL (peak_observation band_df)) (map FLUXCAL w),
                  map (\<lambda>v. v / FLUXCAL (peak_observation band_df)) (map FLUXCALERR w),
                  dates_to_arr_index (map MJD w) (MJD (peak_observation band_df)) time_bin n,
                  (FLUXCAL (peak_observation band_df) / FLUXCALERR (peak_observation band_df))\<^sup>2,
                  low_var_indices)
                 (replicate (length pcs) (- 2, 2))) (\<lambda>result_x.
     bind_err (calc_residual result_x pcs
                 (map (\<lambda>v. v / FLUXCAL (peak_observation band_df)) (map FLUXCAL w))
                 (map (\<lambda>v. v / FLUXCAL (peak_observation band_df)) (map FLUXCALERR w))
                 (dates_to_arr_index (map MJD w) (MJD (peak_observation band_df)) time_bin n))
       (\<lambda>residual. Inr (result_x @ [residual, FLUXCAL (peak_observation band_df)])))"
proof -
  let ?p = "length (takeWhile (\<lambda>x. x \<noteq> Max (set (map FLUXCAL w))) (map FLUXCAL w))"
  have fne: "map FLUXCAL w \<noteq> []" using wne by simp
  have am: "np_argmax (map FLUXCAL w) = Inr ?p"
    using fne by (rule np_argmax_nonempty)
  have lt: "?p < length w"
    using first_max_position(1) [OF fne] by simp
  have "w ! ?p = peak_observation w" by (simp add: peak_observation_def)
  also have "\<dots> = peak_observation band_df"
    using window_has_peak [OF ne] wne by (simp add: w)
  finally have "iloc (map FLUXCALERR w) ?p = Inr (FLUXCALERR (peak_observation band_df))"
    using lt by (simp add: iloc_def)
  then show ?thesis
    unfolding fit_band_def Let_def
    by (simp only: am bind_err.simps)
qed

subsection \<open>The extraction returns\<close>

lemma squared_error_terms_returns:
  assumes rows: "list_all (\<lambda>row. length row = n) pcs" and "pcs \<noteq> []" and "coeff \<noteq> []"
    and lf: "length flux = length idx" and le: "length err = length idx"
    and rng: "\<forall>i \<in> set idx. 0 \<le> i \<and> i < int n"
  shows "\<exists>ts. squared_error_terms coeff pcs flux err idx = Inr ts"
  using squared_error_terms_closed [OF assms] by simp

lemma calc_loss_returns:
  assumes rows: "list_all (\<lambda>row. length row = n) pcs" and ne: "pcs \<noteq> []"
    and lc: "length coeff = length pcs"
    and lf: "length flux = length idx" and le: "length err = length idx"
    and rng: "\<forall>i \<in> set idx. 0 \<le> i \<and> i < int n"
    and lvi: "valid_positions (length pcs) low_var_indices"
  shows "\<exists>v. calc_loss coeff pcs flux err idx w low_var_indices = Inr v"
proof -
  have cne: "coeff \<noteq> []" using ne lc by auto
  obtain ts where ts: "squared_error_terms coeff pcs flux err idx = Inr ts"
    using squared_error_terms_returns [OF rows ne cne lf le rng] by auto
  have c0: "get_item coeff 0 = Inr (coeff ! 0)"
    using cne by (simp add: get_item_nonneg)
  show ?thesis
  proof (cases low_var_indices)
    case None
    then show ?thesis by (simp add: calc_loss_def ts c0)
  next
    case (Some l)
    then have "\<forall>i \<in> set l. - int (length coeff) \<le> i \<and> i < int (length coeff)"
      using lvi lc by (simp add: valid_positions_def list_all_iff)
    then obtain cs where "take_items coeff l = Inr cs"
      using take_items_valid by blast
    then show ?thesis by (simp add: calc_loss_def ts c0 Some)
  qed
qed

lemma calc_residual_returns:
  assumes rows: "list_all (\<lambda>row. length row = n) pcs" and ne: "pcs \<noteq> []"
    and cne: "coeff \<noteq> []"
    and lf: "length flux = length idx" and le: "length err = length idx"
    and rng: "\<forall>i \<in> set idx. 0 \<le> i \<and> i < int n"
  shows "\<exists>r. calc_residual coeff pcs flux err idx = Inr r"
  using squared_error_terms_returns [OF assms] by (auto simp: calc_residual_def)

lemma solver_returnsD:
  assumes "solver_returns minimize"
    and "\<And>x. length x = length init \<Longrightarrow> \<exists>v. apply_objective f x args = Inr v"
  shows "\<exists>x. minimize f init args bnds = Inr x \<and> length x = length init"
proof -
  have "(\<forall>x. length x = length init \<longrightarrow> (\<exists>v. apply_objective f x args = Inr v)) \<longrightarrow>
        (\<exists>x. minimize f init args bnds = Inr x \<and> length x = length init)"
    using assms(1) unfolding solver_returns_def by (elim allE)
  then show ?thesis using assms(2) by simp
qed

lemma fit_band_returns:
  assumes sol: "solver_returns minimize"
    and tm: "template_matrix pcs n" and tb: "0 < time_bin"
    and lvi: "valid_positions (length pcs) low_var_indices"
    and ne: "band_df \<noteq> []"
    and w: "w = prediction_window band_df (MJD (peak_observation band_df)) n time_bin"
    and wne: "w \<noteq> []"
  shows "\<exists>fs. fit_band minimize w pcs n time_bin low_var_indices
           (FLUXCAL (peak_observation band_df)) (MJD (peak_observation band_df)) = Inr fs
         \<and> length fs = length pcs + 2"
proof -
  define pk where "pk = peak_observation band_df"
  define nflux where "nflux = map (\<lambda>v. v / FLUXCAL pk) (map FLUXCAL w)"
  define nerr where "nerr = map (\<lambda>v. v / FLUXCAL pk) (map FLUXCALERR w)"
  define idx where "idx = dates_to_arr_index (map MJD w) (MJD pk) time_bin n"
  define args :: loss_args
    where "args = (pcs, nflux, nerr, idx, (FLUXCAL pk / FLUXCALERR pk)\<^sup>2, low_var_indices)"
  have rows: "list_all (\<lambda>row. length row = n) pcs" and pne: "pcs \<noteq> []"
    using tm by (simp_all add: template_matrix_def)
  have lf: "length nflux = length idx" and le: "length nerr = length idx"
    by (simp_all add: nflux_def nerr_def idx_def)
  have rng: "\<forall>i \<in> set idx. 0 \<le> i \<and> i < int n"
    using dates_index_bounds [OF tb, of band_df "MJD pk" n]
    by (auto simp: idx_def w pk_def)
  have "\<exists>v. apply_objective calc_loss x args = Inr v"
    if "length x = length (replicate (length pcs) (1 / 2 :: real))" for x
    using that calc_loss_returns [OF rows pne _ lf le rng lvi, of x] by (simp add: args_def)
  from solver_returnsD [where init = "replicate (length pcs) (1 / 2)"
        and bnds = "replicate (length pcs) (- 2, 2)", OF sol this]
  obtain x where x: "minimize calc_loss (replicate (length pcs) (1 / 2)) args
        (replicate (length pcs) (- 2, 2)) = Inr x"
    and lx: "length x = length pcs"
    by auto
  have "x \<noteq> []" using lx pne by auto
  then obtain r where r: "calc_residual x pcs nflux nerr idx = Inr r"
    using calc_residual_returns [OF rows pne _ lf le rng] by blast
  show ?thesis
    unfolding fit_band_call [OF ne w wne]
    using x r lx by (simp add: args_def nflux_def nerr_def idx_def pk_def)
qed

lemma predict_returns:
  assumes sol: "solver_returns minimize"
    and tm: "template_matrix pcs n" and tb: "0 < time_bin"
    and lvi: "valid_positions (length pcs) low_var_indices"
  shows "\<exists>fs. predict_band_features minimize band_df pcs time_bin flux_lim low_var_indices = Inr fs
         \<and> length fs = length pcs + 2"
proof (cases "band_df = []")
  case True
  then show ?thesis
    using tm by (simp add: predict_empty_band template_matrix_def)
next
  case False
  then have bne: "band_df \<noteq> []" .
  have pne: "pcs \<noteq> []" and n: "length (hd pcs) = n"
    using tm by (auto simp: template_matrix_def list_all_iff)
  define w where "w = prediction_window band_df (MJD (peak_observation band_df)) n time_bin"
  have pr: "predict_band_features minimize band_df pcs time_bin flux_lim low_var_indices =
      (if flux_lim < FLUXCAL (peak_observation band_df) \<and> 2 \<le> length w
       then fit_band minimize w pcs n time_bin low_var_indices
              (FLUXCAL (peak_observation band_df)) (MJD (peak_observation band_df))
       else Inr (replicate (length pcs) 0 @ [0, 0]))"
    by (simp only: predict_nonempty [OF pne bne] n w_def Let_def)
  show ?thesis
  proof (cases "flux_lim < FLUXCAL (peak_observation band_df) \<and> 2 \<le> length w")
    case True
    then have "w \<noteq> []" by auto
    from fit_band_returns [OF sol tm tb lvi bne w_def this] True show ?thesis
      by (simp add: pr)
  next
    case False
    then show ?thesis
      by (simp only: pr if_False) simp
  qed
qed

lemma extract_loop_returns:
  assumes sol: "solver_returns minimize"
    and tm: "template_matrix pcs n" and tb: "0 < time_bin"
    and P3: "3 \<le> length pcs"
  shows "\<exists>fs. extract_loop minimize pcs filters lc flux_lim time_bin acc = Inr fs
         \<and> length fs = length acc + length filters * (length pcs + 2)"
proof (induction filters arbitrary: acc)
  case Nil
  then show ?case by simp
next
  case (Cons band rest)
  have "valid_positions (length pcs) (Some [1, 2])"
    using P3 by (simp add: valid_positions_def)
  from predict_returns [OF sol tm tb this]
  obtain fs where fs: "predict_band_features minimize (filter (\<lambda>ob. FLT ob = band) lc) pcs
      time_bin flux_lim (Some [1, 2]) = Inr fs" and lfs: "length fs = length pcs + 2"
    by blast
  obtain gs where "extract_loop minimize pcs rest lc flux_lim time_bin (acc @ fs) = Inr gs"
    and "length gs = length (acc @ fs) + length rest * (length pcs + 2)"
    using Cons.IH by blast
  then show ?case
    using fs lfs by simp
qed

subsection \<open>The gate\<close>

lemma predict_by_gate:
  assumes pne: "pcs \<noteq> []" and ne: "band_df \<noteq> []"
  shows "predict_band_features minimize band_df pcs time_bin flux_lim low_var_indices =
     (if fit_gate band_df pcs time_bin flux_lim
      then fit_band minimize (band_window band_df pcs time_bin) pcs (length (hd pcs)) time_bin
             low_var_indices (FLUXCAL (peak_observation band_df)) (MJD (peak_observation band_df))
      else Inr (replicate (length pcs) 0 @ [0, 0]))"
  by (simp only: predict_nonempty [OF pne ne] Let_def fit_gate_def band_window_def
      peak_observation_props(2) [OF ne])

lemma gate_window_nonempty:
  "fit_gate band_df pcs time_bin flux_lim \<Longrightarrow> band_window band_df pcs time_bin \<noteq> []"
  by (auto simp: fit_gate_def)

lemma predict_fit_call:
  assumes pne: "pcs \<noteq> []" and ne: "band_df \<noteq> []"
    and gate: "fit_gate band_df pcs time_bin flux_lim"
  shows "predict_band_features minimize band_df pcs time_bin flux_lim low_var_indices =
     bind_err (minimize calc_loss (replicate (length pcs) (1 / 2))
                 (pcs,
                  map (\<lambda>v. v / FLUXCAL (peak_observation band_df))
                    (map FLUXCAL (band_window band_df pcs time_bin)),
                  map (\<lambda>v. v / FLUXCAL (peak_observation band_df))
                    (map FLUXCALERR (band_window band_df pcs time_bin)),
                  dates_to_arr_index (map MJD (band_window band_df pcs time_bin))
                    (MJD (peak_observation band_df)) time_bin (length (hd pcs)),
                  (FLUXCAL (peak_observation band_df) / FLUXCALERR (peak_observation band_df))\<^sup>2,
                  low_var_indices)
                 (replicate (length pcs) (- 2, 2))) (\<lambda>result_x.
     bind_err (calc_residual result_x pcs
                 (map (\<lambda>v. v / FLUXCAL (peak_observation band_df))
                    (map FLUXCAL (band_window band_df pcs time_bin)))
                 (map (\<lambda>v. v / FLUXCAL (peak_observation band_df))
                    (map FLUXCALERR (band_window band_df pcs time_bin)))
                 (dates_to_arr_index (map MJD (band_window band_df pcs time_bin))
                    (MJD (peak_observation band_df)) time_bin (length (hd pcs))))
       (\<lambda>residual. Inr (result_x @ [residual, FLUXCAL (peak_observation band_df)])))"
  using fit_band_call [OF ne _ gate_window_nonempty [OF gate], of "length (hd pcs)"]
  by (simp only: predict_by_gate [OF pne ne] gate if_True band_window_def)

lemma predict_depends_on_solver:
  assumes pne: "pcs \<noteq> []" and ne: "band_df \<noteq> []"
    and gate: "fit_gate band_df pcs time_bin flux_lim"
  shows "predict_band_features (\<lambda>f x0 args bnds. Inl IndexError) band_df pcs time_bin flux_lim
           low_var_indices \<noteq>
         predict_band_features (\<lambda>f x0 args bnds. Inl ValueError) band_df pcs time_bin flux_lim
           low_var_indices"
  by (simp add: predict_fit_call [OF pne ne gate])

lemma predict_gated_out:
  assumes pne: "pcs \<noteq> []" and ne: "band_df \<noteq> []"
    and gate: "\<not> fit_gate band_df pcs time_bin flux_lim"
  shows "predict_band_features minimize band_df pcs time_bin flux_lim low_var_indices =
           Inr (replicate (length pcs) 0 @ [0, 0])"
  by (simp only: predict_by_gate [OF pne ne] gate if_False)

lemma example_gate: "fit_gate example_band example_pcs (1 / 4) 200"
  by (simp add: fit_gate_def band_window_def example_band_def example_pcs_def
      peak_observation_def prediction_window_def Let_def)

lemma example_gate_rescaled: "\<not> fit_gate (rescale (1 / 2) example_band) example_pcs (1 / 4) 200"
  by (simp add: fit_gate_def rescale_def example_band_def)

subsection \<open>The model at the example inputs\<close>

lemma example_loss:
  "calc_loss [1 / 2, 1 / 2, 1 / 2] example_pcs [1, 1 / 2] [1 / 30, 1 / 30] [4, 5] 900
     (Some [1, 2]) = Inr 900"
  by (simp add: calc_loss_def squared_error_terms_def calc_prediction_def np_take_def
      get_item_def broadcast2_def example_pcs_def power2_eq_square)

lemma example_window: "band_window example_band example_pcs (1 / 4) = example_band"
  by (simp add: band_window_def example_band_def example_pcs_def
      peak_observation_def prediction_window_def Let_def)

lemma example_peak: "peak_observation example_band = example_band ! 0"
  by (simp add: peak_observation_def example_band_def)

lemma example_residual:
  "calc_residual [1 / 2, 1 / 2, 1 / 2] example_pcs [1, 1 / 2] [1 / 30, 1 / 30] [4, 5] = Inr 15"
proof -
  have "((1 / 2)\<^sup>2 / (1 / 30)\<^sup>2 :: real) = 15\<^sup>2"
    by (simp add: power2_eq_square)
  then have "sqrt ((1 / 2)\<^sup>2 / (1 / 30)\<^sup>2) = 15"
    by (simp only: real_sqrt_abs abs_numeral)
  then show ?thesis
    by (simp add: calc_residual_def squared_error_terms_def calc_prediction_def np_take_def
        get_item_def broadcast2_def example_pcs_def)
qed

lemma example_index:
  "dates_to_arr_index (map MJD example_band) 0 (1 / 4) 9 = [4, 5]"
  by (simp add: dates_to_arr_index_def example_band_def np_around_def)

lemma example_fit:
  "predict_band_features initial_guess_solver example_band example_pcs (1 / 4) 200 (Some [1, 2])
     = Inr [1 / 2, 1 / 2, 1 / 2, 15, 300]"
proof -
  have p: "example_pcs \<noteq> []" "length example_pcs = 3" "length (hd example_pcs) = 9"
    by (simp_all add: example_pcs_def)
  have b: "example_band \<noteq> []" by (simp add: example_band_def)
  have cols: "map FLUXCAL example_band = [300, 150]" "map FLUXCALERR example_band = [10, 10]"
    "FLUXCAL (example_band ! 0) = 300" "FLUXCALERR (example_band ! 0) = 10"
    "MJD (example_band ! 0) = 0"
    by (simp_all add: example_band_def)
  have r3: "replicate 3 (1 / 2 :: real) = [1 / 2, 1 / 2, 1 / 2]"
    by (simp add: numeral_3_eq_3)
  show ?thesis
    unfolding predict_fit_call [OF p(1) b example_gate]
    by (simp add: example_window example_peak p cols r3 example_index initial_guess_solver_def
        example_loss example_residual)
qed

lemma initial_guess_solver_returns: "solver_returns initial_guess_solver"
  unfolding solver_returns_def initial_guess_solver_def
proof (intro allI impI)
  fix f :: objective and x0 :: "real list" and args :: loss_args and bnds :: "(real \<times> real) list"
  assume "\<forall>x. length x = length x0 \<longrightarrow> (\<exists>v. apply_objective f x args = Inr v)"
  then obtain v where "apply_objective f x0 args = Inr v" by blast
  then show "\<exists>x. bind_err (apply_objective f x0 args) (\<lambda>v. Inr x0) = Inr x \<and> length x = length x0"
    by simp
qed

lemma example_template: "template_matrix example_pcs 9" "template_matrix example_pcs2 9"
  by (simp_all add: template_matrix_def example_pcs_def example_pcs2_def)

subsection \<open>The layout of the assembled features\<close>

lemma extract_loop_layout:
  assumes sol: "solver_returns minimize"
    and tm: "template_matrix pcs n" and tb: "0 < time_bin"
    and P3: "3 \<le> length pcs"
  shows "\<exists>fs. extract_loop minimize pcs filters lc flux_lim time_bin acc = Inr (acc @ fs)
         \<and> length fs = length filters * (length pcs + 2)
         \<and> (\<forall>b < length filters.
              predict_band_features minimize (filter (\<lambda>ob. FLT ob = filters ! b) lc) pcs
                time_bin flux_lim (Some [1, 2]) =
              Inr (take (length pcs + 2) (drop (b * (length pcs + 2)) fs)))"
proof (induction filters arbitrary: acc)
  case Nil
  then show ?case by simp
next
  case (Cons band rest)
  have "valid_positions (length pcs) (Some [1, 2])"
    using P3 by (simp add: valid_positions_def)
  from predict_returns [OF sol tm tb this]
  obtain gs where gs: "predict_band_features minimize (filter (\<lambda>ob. FLT ob = band) lc) pcs
      time_bin flux_lim (Some [1, 2]) = Inr gs" and lgs: "length gs = length pcs + 2"
    by blast
  obtain fs where run: "extract_loop minimize pcs rest lc flux_lim time_bin (acc @ gs) =
      Inr ((acc @ gs) @ fs)"
    and lfs: "length fs = length rest * (length pcs + 2)"
    and each: "\<forall>b < length rest.
        predict_band_features minimize (filter (\<lambda>ob. FLT ob = rest ! b) lc) pcs
          time_bin flux_lim (Some [1, 2]) =
        Inr (take (length pcs + 2) (drop (b * (length pcs + 2)) fs))"
    using Cons.IH [of "acc @ gs"] by blast
  have "extract_loop minimize pcs (band # rest) lc flux_lim time_bin acc = Inr (acc @ gs @ fs)"
    using gs run by simp
  moreover have "length (gs @ fs) = length (band # rest) * (length pcs + 2)"
    using lgs lfs by simp
  moreover have "predict_band_features minimize (filter (\<lambda>ob. FLT ob = (band # rest) ! b) lc)
        pcs time_bin flux_lim (Some [1, 2]) =
      Inr (take (length pcs + 2) (drop (b * (length pcs + 2)) (gs @ fs)))"
    if "b < length (band # rest)" for b
  proof (cases b)
    case 0
    then show ?thesis using gs lgs by simp
  next
    case (Suc b')
    then have "b' < length rest" using that by simp
    then show ?thesis using each lgs Suc by simp
  qed
  ultimately show ?case by blast
qed

lemma example_fit2:
  "predict_band_features initial_guess_solver example_band example_pcs2 (1 / 4) 200 (Some [1, 2])
     = Inl IndexError"
proof -
  have p: "example_pcs2 \<noteq> []" "length example_pcs2 = 2" "length (hd example_pcs2) = 9"
    by (simp_all add: example_pcs2_def)
  have b: "example_band \<noteq> []" by (simp add: example_band_def)
  have g: "fit_gate example_band example_pcs2 (1 / 4) 200"
    using example_gate by (simp add: fit_gate_def band_window_def example_pcs_def example_pcs2_def)
  have w: "band_window example_band example_pcs2 (1 / 4) = example_band"
    using example_window by (simp add: band_window_def example_pcs_def example_pcs2_def)
  have cols: "map FLUXCAL example_band = [300, 150]" "map FLUXCALERR example_band = [10, 10]"
    "FLUXCAL (example_band ! 0) = 300" "FLUXCALERR (example_band ! 0) = 10"
    "MJD (example_band ! 0) = 0"
    by (simp_all add: example_band_def)
  have r2: "replicate 2 (1 / 2 :: real) = [1 / 2, 1 / 2]"
    by (simp add: numeral_2_eq_2)
  have loss: "calc_loss [1 / 2, 1 / 2] example_pcs2 [1, 1 / 2] [1 / 30, 1 / 30] [4, 5] 900
     (Some [1, 2]) = Inl IndexError"
    by (simp add: calc_loss_def squared_error_terms_def calc_prediction_def np_take_def
        get_item_def broadcast2_def example_pcs2_def)
  show ?thesis
    unfolding predict_fit_call [OF p(1) b g]
    by (simp add: w example_peak p cols r2 example_index initial_guess_solver_def loss)
qed

lemma example_extract_one_band:
  "extract_features_all_bands initial_guess_solver example_pcs [''g''] example_band 200 (1 / 4)
     = Inr [1 / 2, 1 / 2, 1 / 2, 15, 300]"
proof -
  have "filter (\<lambda>ob. FLT ob = ''g'') example_band = example_band"
    by (simp add: example_band_def)
  then show ?thesis
    by (simp add: extract_features_all_bands_def example_fit)
qed

subsection \<open>Rescaling the flux and its error\<close>

lemma rescale_columns:
  "map FLUXCAL (rescale k band_df) = map (\<lambda>v. k * v) (map FLUXCAL band_df)"
  "map FLUXCALERR (rescale k band_df) = map (\<lambda>v. k * v) (map FLUXCALERR band_df)"
  "map MJD (rescale k band_df) = map MJD band_df"
  by (simp_all add: rescale_def)

lemma rescale_Nil [simp]: "rescale k band_df = [] \<longleftrightarrow> band_df = []"
  by (simp add: rescale_def)

lemma length_rescale [simp]: "length (rescale k band_df) = length band_df"
  by (simp add: rescale_def)

lemma Max_scaled:
  fixes k :: real
  assumes "0 < k" and "xs \<noteq> []"
  shows "Max (set (map (\<lambda>v. k * v) xs)) = k * Max (set xs)"
proof -
  have "mono (\<lambda>v. k * v)"
    using assms(1) by (intro monoI) simp
  then have "k * Max (set xs) = Max ((\<lambda>v. k * v) ` set xs)"
    using assms(2) by (intro mono_Max_commute) simp_all
  then show ?thesis by simp
qed

lemma peak_rescale:
  assumes k: "0 < k" and ne: "band_df \<noteq> []"
  shows "peak_observation (rescale k band_df) =
           (peak_observation band_df)\<lparr>FLUXCAL := k * FLUXCAL (peak_observation band_df),
             FLUXCALERR := k * FLUXCALERR (peak_observation band_df)\<rparr>"
proof -
  let ?fl = "map FLUXCAL band_df"
  let ?p = "length (takeWhile (\<lambda>x. x \<noteq> Max (set ?fl)) ?fl)"
  have fne: "?fl \<noteq> []" using ne by simp
  have "takeWhile (\<lambda>x. x \<noteq> k * Max (set ?fl)) (map (\<lambda>v. k * v) ?fl) =
        map (\<lambda>v. k * v) (takeWhile (\<lambda>x. x \<noteq> Max (set ?fl)) ?fl)"
    using k by (simp add: takeWhile_map o_def)
  then have "length (takeWhile (\<lambda>x. x \<noteq> Max (set (map FLUXCAL (rescale k band_df))))
      (map FLUXCAL (rescale k band_df))) = ?p"
    by (simp only: rescale_columns Max_scaled [OF k fne] length_map)
  moreover have "?p < length band_df"
    using first_max_position(1) [OF fne] by simp
  ultimately show ?thesis
    by (simp add: peak_observation_def) (simp add: rescale_def)
qed

lemma window_rescale:
  "prediction_window (rescale k band_df) mid n time_bin =
     rescale k (prediction_window band_df mid n time_bin)"
  by (simp add: prediction_window_def rescale_def Let_def filter_map o_def)

lemma band_window_rescale:
  assumes "0 < k" and "band_df \<noteq> []"
  shows "band_window (rescale k band_df) pcs time_bin = rescale k (band_window band_df pcs time_bin)"
  by (simp add: band_window_def peak_rescale [OF assms] window_rescale)

lemma fit_gate_rescale:
  assumes "0 < k" and "band_df \<noteq> []"
  shows "fit_gate (rescale k band_df) pcs time_bin flux_lim \<longleftrightarrow>
           flux_lim < k * Max (set (map FLUXCAL band_df)) \<and>
           2 \<le> length (band_window band_df pcs time_bin)"
proof -
  have "map FLUXCAL band_df \<noteq> []" using assms(2) by simp
  from Max_scaled [OF assms(1) this] show ?thesis
    by (simp only: fit_gate_def rescale_columns band_window_rescale [OF assms] length_rescale)
qed

lemma residual_of_features: "residual_of (x @ [r, m]) = r"
  by (simp add: residual_of_def nth_append)

lemma residual_of_fit:
  "map_sum id residual_of
     (bind_err s (\<lambda>x. bind_err (c x) (\<lambda>r. Inr (x @ [r, m])))) =
   bind_err s (\<lambda>x. bind_err (c x) (\<lambda>r. Inr r))"
proof (cases s)
  case (Inl e)
  then show ?thesis by simp
next
  case (Inr x)
  then show ?thesis by (cases "c x") (simp_all add: residual_of_features)
qed

lemma predict_rescale:
  assumes k: "0 < k"
    and side: "(flux_lim < k * Max (set (map FLUXCAL band_df))) =
               (flux_lim < Max (set (map FLUXCAL band_df)))"
  shows "map_sum id residual_of
           (predict_band_features minimize (rescale k band_df) pcs time_bin flux_lim
              low_var_indices) =
         map_sum id residual_of
           (predict_band_features minimize band_df pcs time_bin flux_lim low_var_indices)"
proof (cases "pcs = [] \<or> band_df = []")
  case True
  then show ?thesis
    by (auto simp: predict_band_features_def iloc_def)
next
  case False
  then have pne: "pcs \<noteq> []" and ne: "band_df \<noteq> []" by simp_all
  have rne: "rescale k band_df \<noteq> []" using ne by simp
  have gate: "fit_gate (rescale k band_df) pcs time_bin flux_lim =
      fit_gate band_df pcs time_bin flux_lim"
    unfolding fit_gate_rescale [OF k ne] side by (simp only: fit_gate_def)
  show ?thesis
  proof (cases "fit_gate band_df pcs time_bin flux_lim")
    case True
    then have g': "fit_gate (rescale k band_df) pcs time_bin flux_lim"
      using gate by simp
    define pk where "pk = peak_observation band_df"
    define w where "w = band_window band_df pcs time_bin"
    have k0: "k \<noteq> 0" using k by simp
    have nf: "map (\<lambda>v. v / (k * FLUXCAL pk)) (map (\<lambda>v. k * v) (map FLUXCAL w)) =
        map (\<lambda>v. v / FLUXCAL pk) (map FLUXCAL w)"
      using k0 by simp
    have nerr: "map (\<lambda>v. v / (k * FLUXCAL pk)) (map (\<lambda>v. k * v) (map FLUXCALERR w)) =
        map (\<lambda>v. v / FLUXCAL pk) (map FLUXCALERR w)"
      using k0 by simp
    have wt: "(k * FLUXCAL pk / (k * FLUXCALERR pk))\<^sup>2 = (FLUXCAL pk / FLUXCALERR pk)\<^sup>2"
      using k0 by simp
    have sel: "FLUXCAL (pk\<lparr>FLUXCAL := k * FLUXCAL pk, FLUXCALERR := k * FLUXCALERR pk\<rparr>) =
          k * FLUXCAL pk"
      "FLUXCALERR (pk\<lparr>FLUXCAL := k * FLUXCAL pk, FLUXCALERR := k * FLUXCALERR pk\<rparr>) =
          k * FLUXCALERR pk"
      "MJD (pk\<lparr>FLUXCAL := k * FLUXCAL pk, FLUXCALERR := k * FLUXCALERR pk\<rparr>) = MJD pk"
      by simp_all
    show ?thesis
      unfolding predict_fit_call [OF pne ne True] predict_fit_call [OF pne rne g']
        residual_of_fit
      by (simp only: band_window_rescale [OF k ne] rescale_columns peak_rescale [OF k ne]
          pk_def [symmetric] w_def [symmetric] sel nf nerr wt)
  next
    case False
    then have g': "\<not> fit_gate (rescale k band_df) pcs time_bin flux_lim"
      using gate by simp
    show ?thesis
      by (simp only: predict_gated_out [OF pne ne False] predict_gated_out [OF pne rne g'])
  qed
qed

subsection \<open>The examples under every solver\<close>

lemma example_rescaled_half:
  "predict_band_features initial_guess_solver (rescale (1 / 2) example_band) example_pcs (1 / 4)
     200 (Some [1, 2]) = Inr [0, 0, 0, 0, 0]"
proof -
  have p: "example_pcs \<noteq> []" by (simp add: example_pcs_def)
  have b: "rescale (1 / 2) example_band \<noteq> []" by (simp add: example_band_def)
  show ?thesis
    unfolding predict_gated_out [OF p b example_gate_rescaled]
    by (simp add: example_pcs_def)
qed

lemma sum_list_all_zero:
  "(\<And>x. x \<in> set xs \<Longrightarrow> f x = (0::real)) \<Longrightarrow> sum_list (map f xs) = 0"
  by (induction xs) simp_all

lemma example_prediction_at_5:
  "(\<Sum>p\<leftarrow>zip example_pcs coeff. snd p * fst p ! 5) = 0"
proof (rule sum_list_all_zero)
  fix p assume "p \<in> set (zip example_pcs coeff)"
  then have "(fst p, snd p) \<in> set (zip example_pcs coeff)" by simp
  then have "fst p \<in> set example_pcs" by (rule set_zip_leftD)
  then have "fst p ! 5 = 0"
    by (auto simp: example_pcs_def)
  then show "snd p * fst p ! 5 = 0" by simp
qed

lemma example_residual_nonzero:
  "calc_residual x example_pcs [1, 1 / 2] [1 / 30, 1 / 30] [4, 5] \<noteq> Inr 0"
proof (cases x)
  case Nil
  then show ?thesis
    by (simp add: calc_residual_def squared_error_terms_def calc_prediction_def np_take_def
        get_item_def)
next
  case (Cons c cs)
  have rows: "list_all (\<lambda>row. length row = 9) example_pcs" and pne: "example_pcs \<noteq> []"
    by (simp_all add: example_pcs_def)
  have xne: "x \<noteq> []" using Cons by simp
  define a where "a = ((\<Sum>p\<leftarrow>zip example_pcs x. snd p * fst p ! 4) - 1)\<^sup>2 / (1 / 30)\<^sup>2"
  have "squared_error_terms x example_pcs [1, 1 / 2] [1 / 30, 1 / 30] [4, 5] =
      Inr [a, (0 - 1 / 2)\<^sup>2 / (1 / 30)\<^sup>2]"
    using squared_error_terms_closed [OF rows pne xne, of "[1, 1 / 2]" "[4, 5]" "[1 / 30, 1 / 30]"]
    by (simp add: example_prediction_at_5 a_def upt_rec)
  moreover have "0 \<le> a" by (simp add: a_def)
  then have "0 < (a + (0 - 1 / 2)\<^sup>2 / (1 / 30)\<^sup>2) / 2"
    by (simp add: power2_eq_square)
  then have "sqrt ((a + (0 - 1 / 2)\<^sup>2 / (1 / 30)\<^sup>2) / 2) \<noteq> 0"
    by (simp only: real_sqrt_eq_zero_cancel_iff)
  ultimately show ?thesis
    by (simp add: calc_residual_def)
qed

lemma residual_rescale_fails_for_every_solver:
  "map_sum id residual_of
     (predict_band_features minimize (rescale (1 / 2) example_band) example_pcs (1 / 4) 200
        low_var_indices) \<noteq>
   map_sum id residual_of
     (predict_band_features minimize example_band example_pcs (1 / 4) 200 low_var_indices)"
proof -
  have p: "example_pcs \<noteq> []" "length (hd example_pcs) = 9"
    by (simp_all add: example_pcs_def)
  have b: "example_band \<noteq> []" "rescale (1 / 2) example_band \<noteq> []"
    by (simp_all add: example_band_def)
  have cols: "map FLUXCAL example_band = [300, 150]" "map FLUXCALERR example_band = [10, 10]"
    "FLUXCAL (example_band ! 0) = 300" "FLUXCALERR (example_band ! 0) = 10"
    "MJD (example_band ! 0) = 0"
    by (simp_all add: example_band_def)
  have zero: "map_sum id residual_of
     (predict_band_features minimize (rescale (1 / 2) example_band) example_pcs (1 / 4) 200
        low_var_indices) = Inr 0"
    unfolding predict_gated_out [OF p(1) b(2) example_gate_rescaled]
    by (simp add: residual_of_features)
  have "bind_err s (\<lambda>x. bind_err
          (calc_residual x example_pcs [1, 1 / 2] [1 / 30, 1 / 30] [4, 5]) Inr) \<noteq> Inr 0" for s
  proof (cases s)
    case (Inl e)
    then show ?thesis by simp
  next
    case (Inr x)
    then show ?thesis
      using example_residual_nonzero [of x]
      by (cases "calc_residual x example_pcs [1, 1 / 2] [1 / 30, 1 / 30] [4, 5]") simp_all
  qed
  then have "map_sum id residual_of
     (predict_band_features minimize example_band example_pcs (1 / 4) 200 low_var_indices)
     \<noteq> Inr 0"
    unfolding predict_fit_call [OF p(1) b(1) example_gate] residual_of_fit
    by (simp add: example_window example_peak cols example_index p(2))
  then show ?thesis
    unfolding zero by simp
qed

lemma example_loss_raises:
  assumes "length c = 2"
  shows "calc_loss c example_pcs2 [1, 1 / 2] [1 / 30, 1 / 30] [4, 5] w (Some [1, 2]) = Inl IndexError"
proof -
  obtain a b where c: "c = [a, b]"
    using assms by (cases c; cases "tl c") auto
  show ?thesis
    unfolding c
    by (simp add: calc_loss_def squared_error_terms_def calc_prediction_def np_take_def
        get_item_def broadcast2_def example_pcs2_def)
qed

section \<open>The claims\<close>

text \<open>
  C6. A band without observations: for a template matrix with at least one component,
  \<open>predict_band_features\<close> raises nothing and returns \<open>P\<close> zeros followed by two zeros,
  \<open>P\<close> the number of components, whatever the solver, the time step, the flux limit and
  the low-variance positions.
\<close>

theorem empty_band_zero_features:
  assumes "pcs \<noteq> []"
  shows "predict_band_features minimize [] pcs time_bin flux_lim low_var_indices =
           Inr (replicate (length pcs) 0 @ [0, 0])"
  using assms by (rule predict_empty_band)

theorem empty_band_zero_features_witness:
  "predict_band_features initial_guess_solver [] [[0, 1, 0], [0, 0, 0], [0, 0, 0]] (1 / 4) 200
     (Some [1, 2]) = Inr [0, 0, 0, 0, 0]"
  using empty_band_zero_features
    [of "[[0, 1, 0], [0, 0, 0], [0, 0, 0]]" initial_guess_solver "1 / 4" 200 "Some [1, 2]"]
  by (simp add: numeral_3_eq_3)

text \<open>
  C8. \<open>calc_prediction\<close> is linear in the coefficients: for a template matrix whose
  rows have one length and two coefficient vectors of one length, the prediction of
  \<open>a\<close> times the first plus \<open>b\<close> times the second is \<open>a\<close> times the prediction of
  the first plus \<open>b\<close> times the prediction of the second, and no prediction raises.
\<close>

theorem calc_prediction_linear:
  assumes "list_all (\<lambda>row. length row = n) pcs" and "length c1 = length c2"
  shows "\<exists>p1 p2. calc_prediction c1 pcs = Inr p1 \<and> calc_prediction c2 pcs = Inr p2 \<and>
           calc_prediction (map2 (\<lambda>x y. a * x + b * y) c1 c2) pcs =
             np_add (np_scale a p1) (np_scale b p2)"
  using assms by (rule calc_prediction_lin)

theorem calc_prediction_linear_witness:
  "\<exists>p1 p2. calc_prediction [1, 0] [[1, 2, 3], [4, 5, 6]] = Inr p1 \<and>
     calc_prediction [0, 1] [[1, 2, 3], [4, 5, 6]] = Inr p2 \<and>
     calc_prediction (map2 (\<lambda>x y. 2 * x + 3 * y) [1, 0] [0, 1]) [[1, 2, 3], [4, 5, 6]] =
       np_add (np_scale 2 p1) (np_scale 3 p2)"
  using calc_prediction_linear [of 3 "[[1, 2, 3], [4, 5, 6]]" "[1, 0]" "[0, 1]" 2 3]
  by simp

text \<open>
  C1. For a band with at least one observation (and a template matrix with at least one
  component), the result of \<open>predict_band_features\<close> depends on the solver, that is, a
  fit is attempted, exactly when the maximal flux of the band before the window selection
  exceeds \<open>flux_lim\<close> and the window keeps at least two observations; in every other
  case the result is \<open>P\<close> zero coefficients, the residual 0 and the peak flux 0.
\<close>

theorem fit_attempted_iff_gate:
  assumes "pcs \<noteq> []" and "band_df \<noteq> []"
  shows "((\<exists>m1 m2. predict_band_features m1 band_df pcs time_bin flux_lim low_var_indices \<noteq>
                   predict_band_features m2 band_df pcs time_bin flux_lim low_var_indices)
          \<longleftrightarrow> fit_gate band_df pcs time_bin flux_lim)
       \<and> (\<not> fit_gate band_df pcs time_bin flux_lim \<longrightarrow>
          predict_band_features minimize band_df pcs time_bin flux_lim low_var_indices =
            Inr (replicate (length pcs) 0 @ [0, 0]))"
proof (cases "fit_gate band_df pcs time_bin flux_lim")
  case True
  then show ?thesis
    using predict_depends_on_solver [OF assms True] by blast
next
  case False
  then show ?thesis
    by (simp add: predict_gated_out [OF assms False])
qed

theorem fit_attempted_iff_gate_witness:
  "(\<exists>m1 m2. predict_band_features m1 example_band example_pcs (1 / 4) 200 (Some [1, 2]) \<noteq>
             predict_band_features m2 example_band example_pcs (1 / 4) 200 (Some [1, 2]))
   \<and> predict_band_features initial_guess_solver (rescale (1 / 2) example_band) example_pcs
       (1 / 4) 200 (Some [1, 2]) = Inr [0, 0, 0, 0, 0]"
proof -
  have p: "example_pcs \<noteq> []" by (simp add: example_pcs_def)
  have b: "example_band \<noteq> []" "rescale (1 / 2) example_band \<noteq> []"
    by (simp_all add: example_band_def rescale_def)
  have l: "replicate (length example_pcs) (0::real) @ [0, 0] = [0, 0, 0, 0, 0]"
    by (simp add: example_pcs_def)
  show ?thesis
    using fit_attempted_iff_gate [OF p b(1), of "1 / 4" 200 "Some [1, 2]" initial_guess_solver]
      fit_attempted_iff_gate [OF p b(2), of "1 / 4" 200 "Some [1, 2]" initial_guess_solver]
      example_gate example_gate_rescaled
    by (simp only: l simp_thms)
qed

text \<open>
  C3. With a positive time step, every observation that the window selection keeps (the
  window of extent \<open>time_bin * (N - 1)\<close> around any centre, the date of the peak in
  particular) is mapped to a position in \<open>[0, N - 1]\<close>; hence the lookup of the predicted
  curve at the mapped positions, for a template matrix with rows of length \<open>N\<close> and a
  nonempty coefficient vector, raises nothing.
\<close>

theorem window_indices_in_bounds:
  assumes "0 < time_bin" and "template_matrix pcs n" and "coeff \<noteq> []"
  shows "(\<forall>i \<in> set (dates_to_arr_index (map MJD (prediction_window band_df mid n time_bin))
                      mid time_bin n). 0 \<le> i \<and> i \<le> int n - 1)
       \<and> (\<exists>y_pred vs. calc_prediction coeff pcs = Inr y_pred \<and>
            np_take y_pred (dates_to_arr_index (map MJD (prediction_window band_df mid n time_bin))
                              mid time_bin n) = Inr vs)"
proof -
  let ?idx = "dates_to_arr_index (map MJD (prediction_window band_df mid n time_bin)) mid time_bin n"
  have rows: "list_all (\<lambda>row. length row = n) pcs" and pne: "pcs \<noteq> []"
    using assms(2) by (simp_all add: template_matrix_def)
  have bounds: "\<forall>i \<in> set ?idx. 0 \<le> i \<and> i \<le> int n - 1"
    using assms(1) by (rule dates_index_bounds)
  then have "\<forall>i \<in> set ?idx. 0 \<le> i \<and>
      i < int (length (map (\<lambda>k. \<Sum>p\<leftarrow>zip pcs coeff. snd p * fst p ! k) [0..<n]))"
    by auto
  then have "take_items (map (\<lambda>k. \<Sum>p\<leftarrow>zip pcs coeff. snd p * fst p ! k) [0..<n]) ?idx =
      Inr (map (\<lambda>i. map (\<lambda>k. \<Sum>p\<leftarrow>zip pcs coeff. snd p * fst p ! k) [0..<n] ! nat i) ?idx)"
    by (rule take_items_in_range)
  then show ?thesis
    using bounds by (simp add: calc_prediction_closed [OF rows pne assms(3)] np_take_def)
qed

theorem window_indices_in_bounds_witness:
  "dates_to_arr_index (map MJD (prediction_window example_band 0 9 (1 / 4))) 0 (1 / 4) 9 = [4, 5]
   \<and> (\<exists>y_pred vs. calc_prediction [1 / 2, 1 / 2, 1 / 2] example_pcs = Inr y_pred \<and>
        np_take y_pred (dates_to_arr_index (map MJD (prediction_window example_band 0 9 (1 / 4)))
                          0 (1 / 4) 9) = Inr vs)"
proof -
  have t: "template_matrix example_pcs 9" by (simp add: template_matrix_def example_pcs_def)
  have i: "dates_to_arr_index (map MJD (prediction_window example_band 0 9 (1 / 4))) 0 (1 / 4) 9
      = [4, 5]"
    by (simp add: dates_to_arr_index_def prediction_window_def example_band_def np_around_def)
  show ?thesis
    using window_indices_in_bounds [OF _ t, of "1 / 4" "[1 / 2, 1 / 2, 1 / 2]" example_band 0] i
    by simp
qed

text \<open>
  C2. For a template matrix \<open>T\<close> of \<open>P \<ge> 3\<close> rows of length \<open>N\<close>, coefficients
  \<open>c\<close> of length \<open>P\<close>, flux \<open>y\<close>, errors \<open>\<sigma>\<close> and positions \<open>m\<close> of one length with
  every position in \<open>[0, N)\<close>, and the low-variance positions \<open>[1, 2]\<close>, \<open>calc_loss\<close>
  returns the sum over \<open>j\<close> of \<open>((pred[m\<^sub>j] - y\<^sub>j) / \<sigma>\<^sub>j)\<^sup>2\<close> plus \<open>w\<close> times
  \<open>c\<^sub>1\<^sup>2 + c\<^sub>2\<^sup>2\<close>, plus \<open>c\<^sub>0\<^sup>2\<close> when \<open>c\<^sub>0 < 0\<close>, where \<open>pred\<close> is the sum of
  \<open>c\<^sub>i T\<^sub>i\<close>. And when \<open>predict_band_features\<close> fits, it calls the solver with
  \<open>calc_loss\<close> and the weight \<open>(flux / error)\<^sup>2\<close> of the peak observation of the band,
  its flux and error not normalised.
\<close>

theorem calc_loss_formula_and_weight:
  assumes "list_all (\<lambda>row. length row = n) pcs_arr" and "3 \<le> length pcs_arr"
    and "length coeff = length pcs_arr"
    and "length flux = length idx" and "length err = length idx"
    and "\<forall>i \<in> set idx. 0 \<le> i \<and> i < int n"
    and "pcs \<noteq> []" and "band_df \<noteq> []" and "fit_gate band_df pcs time_bin flux_lim"
  shows "calc_loss coeff pcs_arr flux err idx w (Some [1, 2]) =
           Inr ((\<Sum>j<length idx.
                   (((\<Sum>i<length pcs_arr. coeff ! i * pcs_arr ! i ! nat (idx ! j)) - flux ! j)
                      / err ! j)\<^sup>2)
                + w * ((coeff ! 1)\<^sup>2 + (coeff ! 2)\<^sup>2
                       + (if coeff ! 0 < 0 then (coeff ! 0)\<^sup>2 else 0)))
       \<and> predict_band_features minimize band_df pcs time_bin flux_lim low_var_indices =
           bind_err (minimize calc_loss (replicate (length pcs) (1 / 2))
                       (pcs,
                        map (\<lambda>v. v / FLUXCAL (peak_observation band_df))
                          (map FLUXCAL (band_window band_df pcs time_bin)),
                        map (\<lambda>v. v / FLUXCAL (peak_observation band_df))
                          (map FLUXCALERR (band_window band_df pcs time_bin)),
                        dates_to_arr_index (map MJD (band_window band_df pcs time_bin))
                          (MJD (peak_observation band_df)) time_bin (length (hd pcs)),
                        (FLUXCAL (peak_observation band_df)
                           / FLUXCALERR (peak_observation band_df))\<^sup>2,
                        low_var_indices)
                       (replicate (length pcs) (- 2, 2))) (\<lambda>result_x.
           bind_err (calc_residual result_x pcs
                       (map (\<lambda>v. v / FLUXCAL (peak_observation band_df))
                          (map FLUXCAL (band_window band_df pcs time_bin)))
                       (map (\<lambda>v. v / FLUXCAL (peak_observation band_df))
                          (map FLUXCALERR (band_window band_df pcs time_bin)))
                       (dates_to_arr_index (map MJD (band_window band_df pcs time_bin))
                          (MJD (peak_observation band_df)) time_bin (length (hd pcs))))
             (\<lambda>residual. Inr (result_x @ [residual, FLUXCAL (peak_observation band_df)])))"
proof
  show "calc_loss coeff pcs_arr flux err idx w (Some [1, 2]) =
           Inr ((\<Sum>j<length idx.
                   (((\<Sum>i<length pcs_arr. coeff ! i * pcs_arr ! i ! nat (idx ! j)) - flux ! j)
                      / err ! j)\<^sup>2)
                + w * ((coeff ! 1)\<^sup>2 + (coeff ! 2)\<^sup>2
                       + (if coeff ! 0 < 0 then (coeff ! 0)\<^sup>2 else 0)))"
    using assms(1-6) by (rule calc_loss_closed)
next
  show "predict_band_features minimize band_df pcs time_bin flux_lim low_var_indices =
           bind_err (minimize calc_loss (replicate (length pcs) (1 / 2))
                       (pcs,
                        map (\<lambda>v. v / FLUXCAL (peak_observation band_df))
                          (map FLUXCAL (band_window band_df pcs time_bin)),
                        map (\<lambda>v. v / FLUXCAL (peak_observation band_df))
                          (map FLUXCALERR (band_window band_df pcs time_bin)),
                        dates_to_arr_index (map MJD (band_window band_df pcs time_bin))
                          (MJD (peak_observation band_df)) time_bin (length (hd pcs)),
                        (FLUXCAL (peak_observation band_df)
                           / FLUXCALERR (peak_observation band_df))\<^sup>2,
                        low_var_indices)
                       (replicate (length pcs) (- 2, 2))) (\<lambda>result_x.
           bind_err (calc_residual result_x pcs
                       (map (\<lambda>v. v / FLUXCAL (peak_observation band_df))
                          (map FLUXCAL (band_window band_df pcs time_bin)))
                       (map (\<lambda>v. v / FLUXCAL (peak_observation band_df))
                          (map FLUXCALERR (band_window band_df pcs time_bin)))
                       (dates_to_arr_index (map MJD (band_window band_df pcs time_bin))
                          (MJD (peak_observation band_df)) time_bin (length (hd pcs))))
             (\<lambda>residual. Inr (result_x @ [residual, FLUXCAL (peak_observation band_df)])))"
    using assms(7-9) by (rule predict_fit_call)
qed

theorem calc_loss_formula_and_weight_witness:
  "calc_loss [1 / 2, 1 / 2, 1 / 2] example_pcs [1, 1 / 2] [1 / 30, 1 / 30] [4, 5] 900
     (Some [1, 2]) = Inr 900
   \<and> predict_band_features initial_guess_solver example_band example_pcs (1 / 4) 200
       (Some [1, 2]) =
     bind_err (initial_guess_solver calc_loss [1 / 2, 1 / 2, 1 / 2]
                 (example_pcs, [1, 1 / 2], [1 / 30, 1 / 30], [4, 5], (300 / 10)\<^sup>2, Some [1, 2])
                 [(- 2, 2), (- 2, 2), (- 2, 2)]) (\<lambda>result_x.
     bind_err (calc_residual result_x example_pcs [1, 1 / 2] [1 / 30, 1 / 30] [4, 5])
       (\<lambda>residual. Inr (result_x @ [residual, 300])))"
proof -
  have h1: "list_all (\<lambda>row. length row = 9) example_pcs"
    and h2: "3 \<le> length example_pcs"
    and h3: "length [1 / 2, 1 / 2, 1 / 2 :: real] = length example_pcs"
    and h7: "example_pcs \<noteq> []"
    by (simp_all add: example_pcs_def)
  have h4: "length [1, 1 / 2 :: real] = length [4, 5 :: int]"
    and h5: "length [1 / 30, 1 / 30 :: real] = length [4, 5 :: int]"
    and h6: "\<forall>i \<in> set [4, 5 :: int]. 0 \<le> i \<and> i < int 9"
    by simp_all
  have h8: "example_band \<noteq> []" by (simp add: example_band_def)
  note inst = calc_loss_formula_and_weight [OF h1 h2 h3 h4 h5 h6 h7 h8 example_gate,
      of 900 initial_guess_solver "Some [1, 2]"]
  have cols: "map FLUXCAL example_band = [300, 150]" "map FLUXCALERR example_band = [10, 10]"
    "FLUXCAL (example_band ! 0) = 300" "FLUXCALERR (example_band ! 0) = 10"
    "MJD (example_band ! 0) = 0"
    by (simp_all add: example_band_def)
  have r3: "replicate (length example_pcs) (1 / 2 :: real) = [1 / 2, 1 / 2, 1 / 2]"
    "replicate (length example_pcs) (- 2 :: real, 2 :: real) = [(- 2, 2), (- 2, 2), (- 2, 2)]"
    "length (hd example_pcs) = 9"
    by (simp_all add: example_pcs_def)
  have "calc_loss [1 / 2, 1 / 2, 1 / 2] example_pcs [1, 1 / 2] [1 / 30, 1 / 30] [4, 5] 900
     (Some [1, 2]) = Inr 900"
    using inst [THEN conjunct1] by (simp add: example_pcs_def power2_eq_square)
  moreover have "predict_band_features initial_guess_solver example_band example_pcs (1 / 4) 200
       (Some [1, 2]) =
     bind_err (initial_guess_solver calc_loss [1 / 2, 1 / 2, 1 / 2]
                 (example_pcs, [1, 1 / 2], [1 / 30, 1 / 30], [4, 5], (300 / 10)\<^sup>2, Some [1, 2])
                 [(- 2, 2), (- 2, 2), (- 2, 2)]) (\<lambda>result_x.
     bind_err (calc_residual result_x example_pcs [1, 1 / 2] [1 / 30, 1 / 30] [4, 5])
       (\<lambda>residual. Inr (result_x @ [residual, 300])))"
    using inst [THEN conjunct2]
    by (simp only: example_window example_peak cols r3 example_index) simp
  ultimately show ?thesis by (rule conjI)
qed

text \<open>
  C5. With three principal components (and a solver that returns, a positive time step)
  the features assembled for the two bands \<open>g\<close> and \<open>r\<close> are ten values, and
  \<open>get_feature_names\<close> gives the ten names \<open>coeff1_g\<close>, \<open>coeff2_g\<close>, \<open>coeff3_g\<close>,
  \<open>residuo_g\<close>, \<open>maxflux_g\<close>, \<open>coeff1_r\<close>, \<open>coeff2_r\<close>, \<open>coeff3_r\<close>, \<open>residuo_r\<close>,
  \<open>maxflux_r\<close> in this order.
\<close>

theorem two_bands_three_components:
  assumes "solver_returns minimize" and "template_matrix pcs n" and "length pcs = 3"
    and "0 < time_bin"
  shows "(\<exists>fs. extract_features_all_bands minimize pcs [''g'', ''r''] lc flux_lim time_bin = Inr fs
            \<and> length fs = 10)
       \<and> get_feature_names 3 =
           [''coeff1_g'', ''coeff2_g'', ''coeff3_g'', ''residuo_g'', ''maxflux_g'',
            ''coeff1_r'', ''coeff2_r'', ''coeff3_r'', ''residuo_r'', ''maxflux_r'']"
proof -
  have "3 \<le> length pcs" using assms(3) by simp
  from extract_loop_returns [OF assms(1,2,4) this, of "[''g'', ''r'']" lc flux_lim "[]"]
  have "\<exists>fs. extract_features_all_bands minimize pcs [''g'', ''r''] lc flux_lim time_bin = Inr fs
            \<and> length fs = 10"
    using assms(3) by (simp add: extract_features_all_bands_def)
  then show ?thesis
    using get_feature_names_3 by (rule conjI)
qed

theorem two_bands_three_components_witness:
  "(\<exists>fs. extract_features_all_bands initial_guess_solver example_pcs [''g'', ''r''] example_band
           200 (1 / 4) = Inr fs \<and> length fs = 10)
   \<and> get_feature_names 3 =
       [''coeff1_g'', ''coeff2_g'', ''coeff3_g'', ''residuo_g'', ''maxflux_g'',
        ''coeff1_r'', ''coeff2_r'', ''coeff3_r'', ''residuo_r'', ''maxflux_r'']"
proof -
  have l: "length example_pcs = 3" by (simp add: example_pcs_def)
  have t: "0 < (1 / 4 :: real)" by simp
  show ?thesis
    by (rule two_bands_three_components
        [OF initial_guess_solver_returns example_template(1) l t])
qed

text \<open>
  C9, as the code has it. \<open>get_feature_names\<close> names the features of the two bands
  \<open>g\<close> and \<open>r\<close> whatever the list of filters: it returns \<open>2 * (P + 2)\<close> names. With
  three components or more (the low-variance positions are \<open>[1, 2]\<close>), a solver that
  returns and a positive time step, \<open>extract_features_all_bands\<close> returns
  \<open>bands * (P + 2)\<close> values; the two lengths agree exactly when there are two filters.
\<close>

theorem names_and_values_lengths:
  assumes "solver_returns minimize" and "template_matrix pcs n" and "3 \<le> length pcs"
    and "0 < time_bin"
  shows "length (get_feature_names (length pcs)) = 2 * (length pcs + 2)
       \<and> (\<exists>fs. extract_features_all_bands minimize pcs filters lc flux_lim time_bin = Inr fs
              \<and> length fs = length filters * (length pcs + 2)
              \<and> (length (get_feature_names (length pcs)) = length fs \<longleftrightarrow> length filters = 2))"
proof -
  from extract_loop_returns [OF assms(1,2,4,3), of filters lc flux_lim "[]"]
  obtain fs where fs: "extract_features_all_bands minimize pcs filters lc flux_lim time_bin = Inr fs"
    and l: "length fs = length filters * (length pcs + 2)"
    by (auto simp: extract_features_all_bands_def)
  have "length (get_feature_names (length pcs)) = length fs \<longleftrightarrow> length filters = 2"
    by (simp only: length_get_feature_names l mult_cancel2) auto
  then show ?thesis
    using fs l length_get_feature_names by blast
qed

theorem names_and_values_lengths_witness:
  "length (get_feature_names (length example_pcs)) = 2 * (length example_pcs + 2)
   \<and> (\<exists>fs. extract_features_all_bands initial_guess_solver example_pcs [''g''] example_band 200
             (1 / 4) = Inr fs
          \<and> length fs = length [''g''] * (length example_pcs + 2)
          \<and> (length (get_feature_names (length example_pcs)) = length fs
               \<longleftrightarrow> length [''g''] = 2))"
proof -
  have l: "3 \<le> length example_pcs" by (simp add: example_pcs_def)
  have t: "0 < (1 / 4 :: real)" by simp
  show ?thesis
    by (rule names_and_values_lengths
        [OF initial_guess_solver_returns example_template(1) l t])
qed

theorem names_and_values_lengths_counterexample:
  "extract_features_all_bands initial_guess_solver example_pcs [''g''] example_band 200 (1 / 4)
     = Inr [1 / 2, 1 / 2, 1 / 2, 15, 300]
   \<and> length (get_feature_names (length example_pcs)) = 10
   \<and> length [''g''] * (length example_pcs + 2) = 5"
  by (simp add: example_extract_one_band length_get_feature_names) (simp add: example_pcs_def)

text \<open>
  C10, as the code has it. For a template matrix of \<open>P \<ge> 1\<close> rows of one length, a
  positive time step, low-variance positions that all address a vector of length \<open>P\<close>
  (for the default \<open>[1, 2]\<close>: \<open>P \<ge> 3\<close>) and a solver that returns a vector as long as
  its initial guess, \<open>predict_band_features\<close> returns exactly \<open>P + 2\<close> values for every
  band, empty or not, fitted or not.
\<close>

theorem band_features_length:
  assumes "solver_returns minimize" and "template_matrix pcs n" and "0 < time_bin"
    and "valid_positions (length pcs) low_var_indices"
  shows "\<exists>fs. predict_band_features minimize band_df pcs time_bin flux_lim low_var_indices = Inr fs
         \<and> length fs = length pcs + 2"
  using assms by (rule predict_returns)

theorem band_features_length_witness:
  "\<exists>fs. predict_band_features initial_guess_solver example_band example_pcs (1 / 4) 200
          (Some [1, 2]) = Inr fs \<and> length fs = length example_pcs + 2"
proof -
  have v: "valid_positions (length example_pcs) (Some [1, 2])"
    by (simp add: valid_positions_def example_pcs_def)
  have t: "0 < (1 / 4 :: real)" by simp
  show ?thesis
    by (rule band_features_length [OF initial_guess_solver_returns example_template(1) t v])
qed

theorem band_features_length_counterexample:
  "predict_band_features initial_guess_solver example_band example_pcs2 (1 / 4) 200 (Some [1, 2])
     = Inl IndexError"
  by (rule example_fit2)

text \<open>
  C4, as the code has it. The names are grouped by band, not by field: position
  \<open>b * (P + 2) + f\<close> holds field \<open>f\<close> of band \<open>b\<close>, so that all the names of band
  \<open>g\<close> come before all the names of band \<open>r\<close>. The values assembled for the filters
  \<open>g\<close> and \<open>r\<close> follow the same layout: the value at that position is feature \<open>f\<close>
  of band \<open>b\<close> (for three components or more, a solver that returns and a positive
  time step).
\<close>

theorem names_grouped_by_band:
  assumes "solver_returns minimize" and "template_matrix pcs n" and "3 \<le> length pcs"
    and "0 < time_bin" and "b < 2" and "f < length pcs + 2"
  shows "get_feature_names (length pcs) ! (b * (length pcs + 2) + f) =
           names_root (length pcs) ! f @ [''g'', ''r''] ! b
       \<and> (\<exists>fs gs. extract_features_all_bands minimize pcs [''g'', ''r''] lc flux_lim time_bin = Inr fs
              \<and> predict_band_features minimize (filter (\<lambda>ob. FLT ob = [''g'', ''r''] ! b) lc) pcs
                  time_bin flux_lim (Some [1, 2]) = Inr gs
              \<and> fs ! (b * (length pcs + 2) + f) = gs ! f)"
proof -
  from extract_loop_layout [OF assms(1,2,4,3), of "[''g'', ''r'']" lc flux_lim "[]"]
  obtain fs where fs: "extract_features_all_bands minimize pcs [''g'', ''r''] lc flux_lim time_bin
      = Inr fs"
    and l: "length fs = 2 * (length pcs + 2)"
    and each: "\<forall>b < 2. predict_band_features minimize
        (filter (\<lambda>ob. FLT ob = [''g'', ''r''] ! b) lc) pcs time_bin flux_lim (Some [1, 2]) =
        Inr (take (length pcs + 2) (drop (b * (length pcs + 2)) fs))"
    by (auto simp: extract_features_all_bands_def)
  have "b \<le> 2" using assms(5) by simp
  then have "b * (length pcs + 2) \<le> length fs"
    unfolding l by (rule mult_le_mono1)
  then have "take (length pcs + 2) (drop (b * (length pcs + 2)) fs) ! f =
      fs ! (b * (length pcs + 2) + f)"
    using assms(6) by (simp only: nth_take nth_drop)
  then have "\<exists>fs gs. extract_features_all_bands minimize pcs [''g'', ''r''] lc flux_lim time_bin
        = Inr fs
      \<and> predict_band_features minimize (filter (\<lambda>ob. FLT ob = [''g'', ''r''] ! b) lc) pcs
          time_bin flux_lim (Some [1, 2]) = Inr gs
      \<and> fs ! (b * (length pcs + 2) + f) = gs ! f"
    using fs each assms(5) by metis
  then show ?thesis
    using names_layout [OF assms(5,6)] by (rule conjI [rotated])
qed

theorem names_grouped_by_band_witness:
  "get_feature_names (length example_pcs) ! (1 * (length example_pcs + 2) + 0) =
     names_root (length example_pcs) ! 0 @ [''g'', ''r''] ! 1
   \<and> (\<exists>fs gs. extract_features_all_bands initial_guess_solver example_pcs [''g'', ''r'']
                example_band 200 (1 / 4) = Inr fs
          \<and> predict_band_features initial_guess_solver
              (filter (\<lambda>ob. FLT ob = [''g'', ''r''] ! 1) example_band) example_pcs
              (1 / 4) 200 (Some [1, 2]) = Inr gs
          \<and> fs ! (1 * (length example_pcs + 2) + 0) = gs ! 0)"
proof -
  have l: "3 \<le> length example_pcs" by (simp add: example_pcs_def)
  have t: "0 < (1 / 4 :: real)" by simp
  have b: "(1::nat) < 2" by simp
  have f: "0 < length example_pcs + 2" by simp
  show ?thesis
    by (rule names_grouped_by_band
        [OF initial_guess_solver_returns example_template(1) l t b f])
qed

theorem names_grouped_by_field_counterexample:
  "get_feature_names 3 \<noteq> names_grouped_by_field 3
   \<and> get_feature_names 3 ! 1 = ''coeff2_g'' \<and> names_grouped_by_field 3 ! 1 = ''coeff1_r''"
  by (simp add: get_feature_names_def names_grouped_by_field_def names_root_def str_nat_digit
      digit_char_def upt_rec)

text \<open>
  C7, as the code has it. Multiplying every flux and every flux error of a band by a
  constant \<open>k > 0\<close> leaves the residual (and any exception) of \<open>predict_band_features\<close>
  unchanged, provided the rescaled maximal flux lies on the same side of \<open>flux_lim\<close> as
  the original one: the threshold is compared with the flux as it is given.
\<close>

theorem residual_rescale_invariant:
  assumes "0 < k"
    and "(flux_lim < k * Max (set (map FLUXCAL band_df))) =
         (flux_lim < Max (set (map FLUXCAL band_df)))"
  shows "map_sum id residual_of
           (predict_band_features minimize (rescale k band_df) pcs time_bin flux_lim
              low_var_indices) =
         map_sum id residual_of
           (predict_band_features minimize band_df pcs time_bin flux_lim low_var_indices)"
  using assms by (rule predict_rescale)

theorem residual_rescale_invariant_witness:
  "map_sum id residual_of
     (predict_band_features initial_guess_solver (rescale 2 example_band) example_pcs (1 / 4) 200
        (Some [1, 2])) = Inr 15"
proof -
  have k: "0 < (2::real)" by simp
  have s: "(200 < 2 * Max (set (map FLUXCAL example_band))) =
           (200 < Max (set (map FLUXCAL example_band)))"
    by (simp add: example_band_def)
  show ?thesis
    unfolding residual_rescale_invariant [OF k s]
    by (simp add: example_fit residual_of_def)
qed

theorem residual_rescale_counterexample:
  "predict_band_features initial_guess_solver example_band example_pcs (1 / 4) 200 (Some [1, 2])
     = Inr [1 / 2, 1 / 2, 1 / 2, 15, 300]
   \<and> predict_band_features initial_guess_solver (rescale (1 / 2) example_band) example_pcs
       (1 / 4) 200 (Some [1, 2]) = Inr [0, 0, 0, 0, 0]
   \<and> residual_of [1 / 2, 1 / 2, 1 / 2, 15, 300] = 15 \<and> residual_of [0, 0, 0, 0, 0] = 0"
  by (simp add: example_fit example_rescaled_half residual_of_def)

end
